theory Spec2Isabelle
  imports Complex_Main
begin

section \<open>LeafCanvas: the raster views of LeafLens\<close>

text \<open>
  The render body of the \<^verbatim>\<open>LeafCanvas\<close> component (the \<^verbatim>\<open>img.onload\<close> handler)
  draws the decoded image on a canvas, reads the canvas back as an
  \<^verbatim>\<open>ImageData\<close> and rewrites it according to the requested \<^verbatim>\<open>ViewType\<close>.

  Numbers: a JavaScript number is an IEEE-754 double. The embedding computes with
  exact reals instead, so a result that hangs on the last bit of a double is outside
  of it; where a claim is about such a result (the threshold of Skeleton), the views
  concerned are embedded with the arithmetic as a parameter. Every number that reaches the picture goes through the store conversion of a
  \<^verbatim>\<open>Uint8ClampedArray\<close>, which is modelled as the language standard defines it
  (clamp to 0..255, round to nearest, ties to even). In the concrete runs evaluated
  below every value is far from the thresholds and from the rounding ties, so the
  rounding of doubles does not change a stored byte.
\<close>

subsection \<open>Data\<close>

datatype ViewType =
    ORIGINAL | GRAYSCALE | SKELETON | HEATMAP | BLUEPRINT | XRAY | ECO | BINARY | HSV
  | GRADIENT_MAGNITUDE | GRADIENT_DIRECTION | ZERO_CROSSING | WAVELET | FEATURE_MAP

text \<open>
  An \<^verbatim>\<open>ImageData\<close>: \<open>data\<close> is the flat \<^verbatim>\<open>Uint8ClampedArray\<close>, four bytes
  (R, G, B, A) per pixel, rows first.
\<close>

record ImageData =
  width :: nat
  height :: nat
  data :: "nat list"

text \<open>
  The only exception on the path: \<^verbatim>\<open>getImageData\<close> throws \<^verbatim>\<open>IndexSizeError\<close> when
  asked for a rectangle of width or height zero.
\<close>

datatype error = IndexSizeError

text \<open>Every element of a \<^verbatim>\<open>Uint8ClampedArray\<close> is a byte.\<close>

definition bytes :: "nat list \<Rightarrow> bool" where
  "bytes d \<longleftrightarrow> (\<forall>b \<in> set d. b \<le> 255)"

text \<open>What the browser guarantees of the array \<^verbatim>\<open>getImageData\<close> returns.\<close>

definition wellFormed :: "ImageData \<Rightarrow> bool" where
  "wellFormed img \<longleftrightarrow> length (data img) = 4 * (width img * height img) \<and> bytes (data img)"

subsection \<open>Platform functions\<close>

text \<open>
  The conversion a \<^verbatim>\<open>Uint8ClampedArray\<close> applies to a number stored in it
  (\<^verbatim>\<open>ToUint8Clamp\<close> of the language standard).
\<close>

definition toUint8Clamp :: "real \<Rightarrow> nat" where
  "toUint8Clamp v =
     (if v \<le> 0 then 0
      else if 255 \<le> v then 255
      else (let f = \<lfloor>v\<rfloor> in
            if v < real_of_int f + 1 / 2 then nat f
            else if real_of_int f + 1 / 2 < v then nat (f + 1)
            else if even f then nat f else nat (f + 1)))"

text \<open>\<^verbatim>\<open>Math.atan2(y, x)\<close>, with values in \<open>(-\<pi>, \<pi>]\<close>.\<close>

definition atan2 :: "real \<Rightarrow> real \<Rightarrow> real" where
  "atan2 y x =
     (if 0 < x then arctan (y / x)
      else if x < 0 \<and> 0 \<le> y then arctan (y / x) + pi
      else if x < 0 then arctan (y / x) - pi
      else if 0 < y then pi / 2
      else if y < 0 then - (pi / 2)
      else 0)"

text \<open>The remainder operator \<^verbatim>\<open>%\<close> on integers: the sign follows the dividend.\<close>

definition jsRem :: "int \<Rightarrow> int \<Rightarrow> int" where
  "jsRem a b = (if a < 0 then - ((- a) mod \<bar>b\<bar>) else a mod \<bar>b\<bar>)"

text \<open>
  A counting loop \<^verbatim>\<open>for (let i = i0; i < n; i += step) s = body(i, s)\<close>.
  Every loop of the component has a literal positive step (1, 2 or 4); the test
  \<open>0 < step\<close> only makes the function total.
\<close>

function forLoop :: "nat \<Rightarrow> nat \<Rightarrow> nat \<Rightarrow> (nat \<Rightarrow> 's \<Rightarrow> 's) \<Rightarrow> 's \<Rightarrow> 's" where
  "forLoop i n step body s =
     (if i < n \<and> 0 < step then forLoop (i + step) n step body (body i s) else s)"
  by pat_completeness auto
termination
  by (relation "measure (\<lambda>(i, n, step, body, s). n - i)") auto

declare forLoop.simps [simp del]

subsection \<open>Pixel access\<close>

text \<open>\<^verbatim>\<open>getPixelIndex\<close>: clamp \<open>x\<close> and \<open>y\<close> to the picture, return the byte offset.\<close>

definition getPixelIndex :: "nat \<Rightarrow> nat \<Rightarrow> int \<Rightarrow> int \<Rightarrow> nat" where
  "getPixelIndex w h x y =
     (let cx = max 0 (min (int w - 1) x);
          cy = max 0 (min (int h - 1) y)
      in nat ((cy * int w + cx) * 4))"

text \<open>
  \<^verbatim>\<open>getGray\<close>: the luminance of the pixel that starts at byte \<open>i\<close>. With exact
  reals the luminance of a grey pixel is its grey level; the double the code computes
  can differ from it in the last bits.
\<close>

definition getGray :: "nat list \<Rightarrow> nat \<Rightarrow> real" where
  "getGray d i = 0.299 * real (d ! i) + 0.587 * real (d ! (i + 1)) + 0.114 * real (d ! (i + 2))"

subsection \<open>Per-pixel filters\<close>

text \<open>The false colour of the heat map, from the luminance \<open>avg\<close>: (newR, newG, newB).\<close>

definition heatmapColor :: "real \<Rightarrow> real \<times> real \<times> real" where
  "heatmapColor avg =
     (let val = avg / 255 in
      if val < 0.5 then (0, 255 * 2 * val, 255 * (1 - 2 * val))
      else (255 * (2 * val - 1), 255 * (2 - 2 * val), 0))"

text \<open>RGB to HSV as the HSV branch computes it: (h, s, v), each in 0..1.\<close>

definition rgbToHsv :: "real \<Rightarrow> real \<Rightarrow> real \<Rightarrow> real \<times> real \<times> real" where
  "rgbToHsv r g b =
     (let rN = r / 255; gN = g / 255; bN = b / 255;
          mx = max (max rN gN) bN; mn = min (min rN gN) bN;
          v = mx;
          dd = mx - mn;
          s = (if mx = 0 then 0 else dd / mx);
          h = (if mx \<noteq> mn then
                 (if mx = rN then (gN - bN) / dd + (if gN < bN then 6 else 0)
                  else if mx = gN then (bN - rN) / dd + 2
                  else if mx = bN then (rN - gN) / dd + 4
                  else 0) / 6
               else 0)
      in (h, s, v))"

text \<open>
  One round of the point-filter loop: the pixel at byte \<open>i\<close> is read and its three
  colour bytes are overwritten in place. Byte \<open>i + 3\<close> is not touched.
\<close>

definition pointFilter :: "ViewType \<Rightarrow> nat \<Rightarrow> nat list \<Rightarrow> nat list" where
  "pointFilter t i d =
     (let r = real (d ! i); g = real (d ! (i + 1)); b = real (d ! (i + 2));
          avg = 0.299 * r + 0.587 * g + 0.114 * b
      in
      if t = GRAYSCALE then
        d[i := toUint8Clamp avg, i + 1 := toUint8Clamp avg, i + 2 := toUint8Clamp avg]
      else if t = BINARY then
        (let val = (if avg > 128 then 255 else 0) in
         d[i := toUint8Clamp val, i + 1 := toUint8Clamp val, i + 2 := toUint8Clamp val])
      else if t = HEATMAP then
        (case heatmapColor avg of (newR, newG, newB) \<Rightarrow>
         d[i := toUint8Clamp newR, i + 1 := toUint8Clamp newG, i + 2 := toUint8Clamp newB])
      else if t = XRAY then
        (let inverted = 255 - avg;
             contrast = (inverted - 128) * 2 + 128 in
         d[i := toUint8Clamp contrast, i + 1 := toUint8Clamp contrast,
           i + 2 := toUint8Clamp contrast])
      else if t = ECO then
        d[i := toUint8Clamp (r * 0.8), i + 1 := toUint8Clamp (g * 1.2),
          i + 2 := toUint8Clamp (b * 0.8)]
      else if t = HSV then
        (case rgbToHsv r g b of (h, s, v) \<Rightarrow>
         d[i := toUint8Clamp (h * 255), i + 1 := toUint8Clamp (s * 255),
           i + 2 := toUint8Clamp (v * 255)])
      else d)"

subsection \<open>Haar wavelet\<close>

text \<open>The four coefficients of one 2x2 block: (LL, LH, HL, HH).\<close>

definition haar :: "real \<Rightarrow> real \<Rightarrow> real \<Rightarrow> real \<Rightarrow> real \<times> real \<times> real \<times> real" where
  "haar p1 p2 p3 p4 =
     ((p1 + p2 + p3 + p4) / 4,
      (p1 + p2 - p3 - p4) / 4 + 128,
      (p1 - p2 + p3 - p4) / 4 + 128,
      (p1 - p2 - p3 + p4) / 4 + 128)"

text \<open>The byte offsets of the four quadrant pixels a block writes.\<close>

definition idxLL :: "nat \<Rightarrow> nat \<Rightarrow> nat \<Rightarrow> nat" where
  "idxLL w xOut yOut = (yOut * w + xOut) * 4"

definition idxLH :: "nat \<Rightarrow> nat \<Rightarrow> nat \<Rightarrow> nat \<Rightarrow> nat" where
  "idxLH w halfW xOut yOut = (yOut * w + (xOut + halfW)) * 4"

definition idxHL :: "nat \<Rightarrow> nat \<Rightarrow> nat \<Rightarrow> nat \<Rightarrow> nat" where
  "idxHL w halfH xOut yOut = ((yOut + halfH) * w + xOut) * 4"

definition idxHH :: "nat \<Rightarrow> nat \<Rightarrow> nat \<Rightarrow> nat \<Rightarrow> nat \<Rightarrow> nat" where
  "idxHH w halfW halfH xOut yOut = ((yOut + halfH) * w + (xOut + halfW)) * 4"

text \<open>
  \<^verbatim>\<open>output[idx] = output[idx+1] = output[idx+2] = v; output[idx+3] = 255\<close>:
  the chained assignment stores from right to left.
\<close>

definition putGray :: "nat list \<Rightarrow> nat \<Rightarrow> real \<Rightarrow> nat list" where
  "putGray out idx v =
     out[idx + 2 := toUint8Clamp v, idx + 1 := toUint8Clamp v, idx := toUint8Clamp v,
         idx + 3 := 255]"

text \<open>
  One round of the inner wavelet loop, for the block whose top left corner is
  \<open>(x, y)\<close>; both are even, so \<^verbatim>\<open>x / 2\<close> and \<^verbatim>\<open>y / 2\<close> are integers.
\<close>

definition waveletBlock :: "nat \<Rightarrow> nat \<Rightarrow> nat list \<Rightarrow> nat \<Rightarrow> nat \<Rightarrow> nat list \<Rightarrow> nat list" where
  "waveletBlock w h d y x out =
     (let halfW = w div 2; halfH = h div 2;
          i1 = getPixelIndex w h (int x) (int y);
          i2 = getPixelIndex w h (int x + 1) (int y);
          i3 = getPixelIndex w h (int x) (int y + 1);
          i4 = getPixelIndex w h (int x + 1) (int y + 1);
          p1 = getGray d i1; p2 = getGray d i2; p3 = getGray d i3; p4 = getGray d i4
      in case haar p1 p2 p3 p4 of (LL, LH, HL, HH) \<Rightarrow>
         (let xOut = x div 2; yOut = y div 2;
              out1 = putGray out (idxLL w xOut yOut) LL;
              out2 = putGray out1 (idxLH w halfW xOut yOut) LH;
              out3 = putGray out2 (idxHL w halfH xOut yOut) HL
          in putGray out3 (idxHH w halfW halfH xOut yOut) HH))"

definition wavelet :: "nat \<Rightarrow> nat \<Rightarrow> nat list \<Rightarrow> nat list \<Rightarrow> nat list" where
  "wavelet w h d out =
     forLoop 0 h 2 (\<lambda>y out'. forLoop 0 w 2 (\<lambda>x out''. waveletBlock w h d y x out'') out') out"


subsection \<open>Neighbourhood filters\<close>

text \<open>The Sobel responses (gx, gy) at \<open>(x, y)\<close>.\<close>

definition sobel :: "nat \<Rightarrow> nat \<Rightarrow> nat list \<Rightarrow> int \<Rightarrow> int \<Rightarrow> real \<times> real" where
  "sobel w h d x y =
     (let iTopLeft = getGray d (getPixelIndex w h (x - 1) (y - 1));
          iTop = getGray d (getPixelIndex w h x (y - 1));
          iTopRight = getGray d (getPixelIndex w h (x + 1) (y - 1));
          iLeft = getGray d (getPixelIndex w h (x - 1) y);
          iRight = getGray d (getPixelIndex w h (x + 1) y);
          iBottomLeft = getGray d (getPixelIndex w h (x - 1) (y + 1));
          iBottom = getGray d (getPixelIndex w h x (y + 1));
          iBottomRight = getGray d (getPixelIndex w h (x + 1) (y + 1));
          gx = -1 * iTopLeft + 1 * iTopRight + -2 * iLeft + 2 * iRight
               + -1 * iBottomLeft + 1 * iBottomRight;
          gy = -1 * iTopLeft + -2 * iTop + -1 * iTopRight + 1 * iBottomLeft
               + 2 * iBottom + 1 * iBottomRight
      in (gx, gy))"

text \<open>
  \<^verbatim>\<open>Math.sqrt(gx * gx + gy * gy)\<close> at \<open>(x, y)\<close>, in exact reals. Where this value
  is exactly a threshold of a view (50, 30 or 20) the double of the code can fall on
  the other side; what is stated of the threshold of Skeleton is stated of
  \<open>magnitudeA\<close> below, for every arithmetic.
\<close>

definition magnitude :: "nat \<Rightarrow> nat \<Rightarrow> nat list \<Rightarrow> int \<Rightarrow> int \<Rightarrow> real" where
  "magnitude w h d x y = (case sobel w h d x y of (gx, gy) \<Rightarrow> sqrt (gx * gx + gy * gy))"

text \<open>The value the zero-crossing branch stores at \<open>(x, y)\<close>.\<close>

definition zeroCrossing :: "nat \<Rightarrow> nat \<Rightarrow> nat list \<Rightarrow> int \<Rightarrow> int \<Rightarrow> real" where
  "zeroCrossing w h d x y =
     (let n = getGray d (getPixelIndex w h x (y - 1));
          w' = getGray d (getPixelIndex w h (x - 1) y);
          c = getGray d (getPixelIndex w h x y);
          e = getGray d (getPixelIndex w h (x + 1) y);
          s = getGray d (getPixelIndex w h x (y + 1));
          laplacian = n + w' + e + s - 4 * c;
          val = 128 + laplacian * 2
      in max 0 (min 255 val))"

text \<open>
  The display value of the feature map at \<open>(x, y)\<close>: the two loops over the 3x3
  window, with their three accumulators (\<open>acc_sum\<close> is the variable \<^verbatim>\<open>sum\<close>).
  In exact reals the variance is never negative. In doubles the variance of a flat
  window can come out as a tiny negative number; \<^verbatim>\<open>Math.sqrt\<close> then gives NaN, which
  is stored as 0 on the three channels. Nothing below is stated of the colour bytes
  of this view: only that they are bytes and that its alpha is 255, which holds in
  either case.
\<close>

definition featureMap :: "nat \<Rightarrow> nat \<Rightarrow> nat list \<Rightarrow> int \<Rightarrow> int \<Rightarrow> real" where
  "featureMap w h d x y =
     (case fold (\<lambda>ky acc.
             fold (\<lambda>kx (acc_sum, sqSum, count).
                let pIdx = getPixelIndex w h (x + kx) (y + ky);
                    val = getGray d pIdx
                in (acc_sum + val, sqSum + val * val, count + 1)) [-1, 0, 1] acc)
           [-1, 0, 1] (0, 0, 0)
      of (acc_sum, sqSum, count) \<Rightarrow>
        (let mean = acc_sum / count;
             variance = (sqSum / count) - (mean * mean)
         in min 255 (sqrt variance * 4)))"

text \<open>The colour (r, g, b), each in 0..1, of the gradient direction.\<close>

definition directionColor :: "real \<Rightarrow> real \<Rightarrow> real \<times> real \<times> real" where
  "directionColor gx gy =
     (let angle = atan2 gy gx;
          normalizedAngle = (angle + pi) / (2 * pi);
          s = 1; v = 1;
          iH = \<lfloor>normalizedAngle * 6\<rfloor>;
          f = normalizedAngle * 6 - real_of_int iH;
          p = v * (1 - s);
          q = v * (1 - f * s);
          t = v * (1 - (1 - f) * s);
          m = jsRem iH 6;
          rgb = (if m = 0 then (v, t, p)
                 else if m = 1 then (q, v, p)
                 else if m = 2 then (p, v, t)
                 else if m = 3 then (p, q, v)
                 else if m = 4 then (t, p, v)
                 else if m = 5 then (v, p, q)
                 else (0, 0, 0));
          mag = sqrt (gx * gx + gy * gy)
      in if mag < 20 then (0, 0, 0) else rgb)"

text \<open>One round of the inner convolution loop, for the pixel \<open>(x, y)\<close>.\<close>

definition convPixel :: "ViewType \<Rightarrow> nat \<Rightarrow> nat \<Rightarrow> nat list \<Rightarrow> nat \<Rightarrow> nat \<Rightarrow> nat list \<Rightarrow> nat list" where
  "convPixel t w h d y x out =
     (let idx = (y * w + x) * 4 in
      if t = FEATURE_MAP then
        (let displayVal = featureMap w h d (int x) (int y) in
         out[idx := toUint8Clamp displayVal, idx + 1 := toUint8Clamp (displayVal * 0.8),
             idx + 2 := toUint8Clamp (255 - displayVal), idx + 3 := 255])
      else if t = ZERO_CROSSING then
        (let val = zeroCrossing w h d (int x) (int y) in
         out[idx := toUint8Clamp val, idx + 1 := toUint8Clamp val,
             idx + 2 := toUint8Clamp val, idx + 3 := 255])
      else if t = GRADIENT_MAGNITUDE \<or> t = SKELETON \<or> t = BLUEPRINT then
        (let mag = magnitude w h d (int x) (int y) in
         (if t = SKELETON then
            (let val = (if mag > 50 then mag else 0) in
             out[idx := toUint8Clamp val, idx + 1 := toUint8Clamp val,
                 idx + 2 := toUint8Clamp val])
          else if t = BLUEPRINT then
            (let val = (if mag > 30 then 255 else 0 :: real) in
             if val > 0 then out[idx := 255, idx + 1 := 255, idx + 2 := 255]
             else out[idx := 30, idx + 1 := 64, idx + 2 := 175])
          else
            out[idx := toUint8Clamp mag, idx + 1 := toUint8Clamp mag,
                idx + 2 := toUint8Clamp mag])
         [idx + 3 := 255])
      else if t = GRADIENT_DIRECTION then
        (case sobel w h d (int x) (int y) of (gx, gy) \<Rightarrow>
         case directionColor gx gy of (r, g, b) \<Rightarrow>
         out[idx := toUint8Clamp (r * 255), idx + 1 := toUint8Clamp (g * 255),
             idx + 2 := toUint8Clamp (b * 255), idx + 3 := 255])
      else out)"

definition convolve :: "ViewType \<Rightarrow> nat \<Rightarrow> nat \<Rightarrow> nat list \<Rightarrow> nat list \<Rightarrow> nat list" where
  "convolve t w h d out =
     forLoop 0 h 1 (\<lambda>y out'. forLoop 0 w 1 (\<lambda>x out''. convPixel t w h d y x out'') out') out"

subsection \<open>The render body\<close>

definition isPointView :: "ViewType \<Rightarrow> bool" where
  "isPointView t \<longleftrightarrow>
     t = GRAYSCALE \<or> t = HEATMAP \<or> t = XRAY \<or> t = ECO \<or> t = BINARY \<or> t = HSV"

definition isStructuralView :: "ViewType \<Rightarrow> bool" where
  "isStructuralView t \<longleftrightarrow>
     t = SKELETON \<or> t = BLUEPRINT \<or> t = GRADIENT_MAGNITUDE \<or> t = GRADIENT_DIRECTION
     \<or> t = ZERO_CROSSING \<or> t = FEATURE_MAP \<or> t = WAVELET"

text \<open>
  \<open>render img t\<close>: \<open>img\<close> is the decoded picture as the canvas holds it after
  \<^verbatim>\<open>drawImage\<close>; the result is the content of the canvas when the handler returns.
  \<^verbatim>\<open>createImageData\<close> gives a buffer of zeros.
\<close>

definition render :: "ImageData \<Rightarrow> ViewType \<Rightarrow> error + ImageData" where
  "render img t =
     (if t = ORIGINAL then Inr img
      else if width img = 0 \<or> height img = 0 then Inl IndexSizeError
      else
        (let w = width img; h = height img; d = data img in
         if isPointView t then
           Inr (img\<lparr>data := forLoop 0 (length d) 4 (pointFilter t) d\<rparr>)
         else if isStructuralView t then
           (let output = replicate (w * h * 4) 0 in
            if t = WAVELET then Inr (img\<lparr>data := wavelet w h d output\<rparr>)
            else Inr (img\<lparr>data := convolve t w h d output\<rparr>))
         else Inr img))"

subsection \<open>The magnitude views over any arithmetic\<close>

text \<open>
  Skeleton and Blueprint compare the Sobel magnitude with a threshold, and such a
  comparison can turn on the last bit of a double. The three views drawn from the
  magnitude (Gradient Magnitude, Skeleton, Blueprint) are therefore embedded a second
  time with the arithmetic of the numbers as a parameter: \<open>fLit\<close> is the number a
  literal or a byte read from the array denotes, \<open>fAdd\<close>, \<open>fMul\<close> and \<open>fSqrt\<close> are
  \<^verbatim>\<open>+\<close>, \<^verbatim>\<open>*\<close> and \<^verbatim>\<open>Math.sqrt\<close>, \<open>fGt\<close> is \<^verbatim>\<open>>\<close>, and \<open>fStore\<close> is the
  conversion of a store into the \<^verbatim>\<open>Uint8ClampedArray\<close>. What is proved for every
  \<open>A\<close> holds for the doubles of a JavaScript engine and for exact reals alike.
\<close>

record 'n arith =
  fLit :: "real \<Rightarrow> 'n"
  fAdd :: "'n \<Rightarrow> 'n \<Rightarrow> 'n"
  fMul :: "'n \<Rightarrow> 'n \<Rightarrow> 'n"
  fSqrt :: "'n \<Rightarrow> 'n"
  fGt :: "'n \<Rightarrow> 'n \<Rightarrow> bool"
  fStore :: "'n \<Rightarrow> nat"

text \<open>The arithmetic of the rest of this theory.\<close>

definition exactReals :: "real arith" where
  "exactReals = \<lparr>fLit = (\<lambda>r. r), fAdd = (+), fMul = (*), fSqrt = sqrt,
                  fGt = (\<lambda>a b. a > b), fStore = toUint8Clamp\<rparr>"

text \<open>\<^verbatim>\<open>getGray\<close>, the operations in the order the expression evaluates them.\<close>

definition getGrayA :: "'n arith \<Rightarrow> nat list \<Rightarrow> nat \<Rightarrow> 'n" where
  "getGrayA A d i =
     fAdd A (fAdd A (fMul A (fLit A 0.299) (fLit A (real (d ! i))))
                    (fMul A (fLit A 0.587) (fLit A (real (d ! (i + 1))))))
            (fMul A (fLit A 0.114) (fLit A (real (d ! (i + 2)))))"

text \<open>The Sobel responses (gx, gy): the two sums are evaluated from left to right.\<close>

definition sobelA :: "'n arith \<Rightarrow> nat \<Rightarrow> nat \<Rightarrow> nat list \<Rightarrow> int \<Rightarrow> int \<Rightarrow> 'n \<times> 'n" where
  "sobelA A w h d x y =
     (let iTopLeft = getGrayA A d (getPixelIndex w h (x - 1) (y - 1));
          iTop = getGrayA A d (getPixelIndex w h x (y - 1));
          iTopRight = getGrayA A d (getPixelIndex w h (x + 1) (y - 1));
          iLeft = getGrayA A d (getPixelIndex w h (x - 1) y);
          iRight = getGrayA A d (getPixelIndex w h (x + 1) y);
          iBottomLeft = getGrayA A d (getPixelIndex w h (x - 1) (y + 1));
          iBottom = getGrayA A d (getPixelIndex w h x (y + 1));
          iBottomRight = getGrayA A d (getPixelIndex w h (x + 1) (y + 1));
          gx = fAdd A (fAdd A (fAdd A (fAdd A (fAdd A
                 (fMul A (fLit A (- 1)) iTopLeft)
                 (fMul A (fLit A 1) iTopRight))
                 (fMul A (fLit A (- 2)) iLeft))
                 (fMul A (fLit A 2) iRight))
                 (fMul A (fLit A (- 1)) iBottomLeft))
                 (fMul A (fLit A 1) iBottomRight);
          gy = fAdd A (fAdd A (fAdd A (fAdd A (fAdd A
                 (fMul A (fLit A (- 1)) iTopLeft)
                 (fMul A (fLit A (- 2)) iTop))
                 (fMul A (fLit A (- 1)) iTopRight))
                 (fMul A (fLit A 1) iBottomLeft))
                 (fMul A (fLit A 2) iBottom))
                 (fMul A (fLit A 1) iBottomRight)
      in (gx, gy))"

definition magnitudeA :: "'n arith \<Rightarrow> nat \<Rightarrow> nat \<Rightarrow> nat list \<Rightarrow> int \<Rightarrow> int \<Rightarrow> 'n" where
  "magnitudeA A w h d x y =
     (case sobelA A w h d x y of (gx, gy) \<Rightarrow> fSqrt A (fAdd A (fMul A gx gx) (fMul A gy gy)))"

text \<open>
  One round of the inner convolution loop for the views drawn from the magnitude: the
  branch of the handler under the test
  \<^verbatim>\<open>type === GRADIENT_MAGNITUDE || type === SKELETON || type === BLUEPRINT\<close>.
  The other views are embedded in \<open>convPixel\<close> only.
\<close>

definition magnitudePixelA ::
  "'n arith \<Rightarrow> ViewType \<Rightarrow> nat \<Rightarrow> nat \<Rightarrow> nat list \<Rightarrow> nat \<Rightarrow> nat \<Rightarrow> nat list \<Rightarrow> nat list" where
  "magnitudePixelA A t w h d y x out =
     (let idx = (y * w + x) * 4 in
      if t = GRADIENT_MAGNITUDE \<or> t = SKELETON \<or> t = BLUEPRINT then
        (let mag = magnitudeA A w h d (int x) (int y) in
         (if t = SKELETON then
            (let val = (if fGt A mag (fLit A 50) then mag else fLit A 0) in
             out[idx := fStore A val, idx + 1 := fStore A val, idx + 2 := fStore A val])
          else if t = BLUEPRINT then
            (let val = (if fGt A mag (fLit A 30) then fLit A 255 else fLit A 0) in
             if fGt A val (fLit A 0)
             then out[idx := fStore A (fLit A 255), idx + 1 := fStore A (fLit A 255),
                      idx + 2 := fStore A (fLit A 255)]
             else out[idx := fStore A (fLit A 30), idx + 1 := fStore A (fLit A 64),
                      idx + 2 := fStore A (fLit A 175)])
          else
            out[idx := fStore A mag, idx + 1 := fStore A mag, idx + 2 := fStore A mag])
         [idx + 3 := fStore A (fLit A 255)])
      else out)"

text \<open>
  The render body for \<open>t\<close> one of the three magnitude views: \<^verbatim>\<open>getImageData\<close>, a new
  buffer of zeros, the two loops over the pixels.
\<close>

definition renderMagnitudeA :: "'n arith \<Rightarrow> ImageData \<Rightarrow> ViewType \<Rightarrow> error + ImageData" where
  "renderMagnitudeA A img t =
     (if width img = 0 \<or> height img = 0 then Inl IndexSizeError
      else
        (let w = width img; h = height img; d = data img;
             output = replicate (w * h * 4) 0
         in Inr (img\<lparr>data :=
              forLoop 0 h 1 (\<lambda>y out'. forLoop 0 w 1
                (\<lambda>x out''. magnitudePixelA A t w h d y x out'') out') output\<rparr>)))"

text \<open>
  The Sobel responses and the magnitude as the specification writes them (section 4.3:
  \<^verbatim>\<open>Gx = -1*NW +1*NE -2*W +2*E -1*SW +1*SE\<close>, \<^verbatim>\<open>Gy = -1*NW -2*N -1*NE +1*SW +2*S +1*SE\<close>,
  magnitude \<^verbatim>\<open>sqrt(Gx^2 + Gy^2)\<close>), over the luminance samples \<open>s dx dy\<close> around the
  pixel.
\<close>

definition specGx :: "'n arith \<Rightarrow> (int \<Rightarrow> int \<Rightarrow> 'n) \<Rightarrow> 'n" where
  "specGx A s =
     fAdd A (fAdd A (fAdd A (fAdd A (fAdd A
       (fMul A (fLit A (- 1)) (s (- 1) (- 1)))
       (fMul A (fLit A 1) (s 1 (- 1))))
       (fMul A (fLit A (- 2)) (s (- 1) 0)))
       (fMul A (fLit A 2) (s 1 0)))
       (fMul A (fLit A (- 1)) (s (- 1) 1)))
       (fMul A (fLit A 1) (s 1 1))"

definition specGy :: "'n arith \<Rightarrow> (int \<Rightarrow> int \<Rightarrow> 'n) \<Rightarrow> 'n" where
  "specGy A s =
     fAdd A (fAdd A (fAdd A (fAdd A (fAdd A
       (fMul A (fLit A (- 1)) (s (- 1) (- 1)))
       (fMul A (fLit A (- 2)) (s 0 (- 1))))
       (fMul A (fLit A (- 1)) (s 1 (- 1))))
       (fMul A (fLit A 1) (s (- 1) 1)))
       (fMul A (fLit A 2) (s 0 1)))
       (fMul A (fLit A 1) (s 1 1))"

definition specMagnitude :: "'n arith \<Rightarrow> (int \<Rightarrow> int \<Rightarrow> 'n) \<Rightarrow> 'n" where
  "specMagnitude A s =
     fSqrt A (fAdd A (fMul A (specGx A s) (specGx A s)) (fMul A (specGy A s) (specGy A s)))"

section \<open>Properties\<close>

lemma forLoop_step:
  "i < n \<Longrightarrow> 0 < step \<Longrightarrow> forLoop i n step body s = forLoop (i + step) n step body (body i s)"
  by (subst forLoop.simps) simp

lemma forLoop_done: "\<not> i < n \<Longrightarrow> forLoop i n step body s = s"
  by (subst forLoop.simps) simp

subsection \<open>Loops\<close>

lemma forLoop_invariant:
  assumes "I s"
    and "\<And>k s'. i \<le> k \<Longrightarrow> k < n \<Longrightarrow> step dvd (k - i) \<Longrightarrow> I s' \<Longrightarrow> I (body k s')"
  shows "I (forLoop i n step body s)"
  using assms
proof (induction i n step body s rule: forLoop.induct)
  case (1 i n step body s)
  show ?case
  proof (cases "i < n \<and> 0 < step")
    case True
    have a: "I (body i s)" using 1(2) 1(3)[of i s] True by simp
    have b: "\<And>k s'. i + step \<le> k \<Longrightarrow> k < n \<Longrightarrow> step dvd (k - (i + step)) \<Longrightarrow> I s' \<Longrightarrow> I (body k s')"
    proof -
      fix k s' assume h: "i + step \<le> k" "k < n" "step dvd (k - (i + step))" "I s'"
      have "k - i = (k - (i + step)) + step" using h(1) by simp
      then have "step dvd (k - i)" using h(3) by simp
      then show "I (body k s')" using 1(3)[of k s'] h by simp
    qed
    have "I (forLoop (i + step) n step body (body i s))"
      using 1(1)[OF True a b] by simp
    then show ?thesis using True by (simp add: forLoop_step)
  next
    case False
    then have "forLoop i n step body s = s" by (subst forLoop.simps) auto
    then show ?thesis using 1(2) by simp
  qed
qed

lemma forLoop_reaches:
  assumes "0 < step" "i \<le> j" "j < n" "step dvd (j - i)" "I s"
    and pres: "\<And>k s'. i \<le> k \<Longrightarrow> k < n \<Longrightarrow> step dvd (k - i) \<Longrightarrow> I s' \<Longrightarrow> I (body k s')"
    and est: "\<And>s'. I s' \<Longrightarrow> Q (body j s')"
    and keep: "\<And>k s'. i \<le> k \<Longrightarrow> k < n \<Longrightarrow> step dvd (k - i) \<Longrightarrow> I s' \<Longrightarrow> Q s' \<Longrightarrow> Q (body k s')"
  shows "Q (forLoop i n step body s)"
  using assms
proof (induction i n step body s rule: forLoop.induct)
  case (1 i n step body s)
  have lt: "i < n" using 1 by simp
  have unf: "forLoop i n step body s = forLoop (i + step) n step body (body i s)"
    using lt 1(2) by (simp add: forLoop_step)
  have Ib: "I (body i s)" using 1(7)[of i s] lt 1(6) by simp
  have shift: "\<And>k. i + step \<le> k \<Longrightarrow> step dvd (k - (i + step)) \<Longrightarrow> step dvd (k - i)"
  proof -
    fix k assume h: "i + step \<le> k" "step dvd (k - (i + step))"
    have "k - i = (k - (i + step)) + step" using h(1) by simp
    then show "step dvd (k - i)" using h(2) by simp
  qed
  show ?case
  proof (cases "i = j")
    case True
    have Qb: "Q (body i s)" using 1(8)[OF 1(6)] True by simp
    have "I (forLoop (i + step) n step body (body i s)) \<and> Q (forLoop (i + step) n step body (body i s))"
    proof (rule forLoop_invariant[where I = "\<lambda>s. I s \<and> Q s"])
      show "I (body i s) \<and> Q (body i s)" using Ib Qb by simp
    next
      fix k s' assume h: "i + step \<le> k" "k < n" "step dvd (k - (i + step))" "I s' \<and> Q s'"
      have d: "step dvd (k - i)" using shift h by simp
      show "I (body k s') \<and> Q (body k s')"
        using 1(7)[of k s'] 1(9)[of k s'] h d by simp
    qed
    then show ?thesis using unf by simp
  next
    case False
    then have "i < j" using 1(3) by simp
    obtain m where m: "j - i = step * m" using 1(5) by (auto simp: dvd_def)
    have "m \<noteq> 0" using m \<open>i < j\<close> by (cases m) auto
    then have "step \<le> step * m" by (cases m) auto
    then have le: "i + step \<le> j" using m \<open>i < j\<close> by linarith
    have "j - (i + step) = step * (m - 1)" using m \<open>m \<noteq> 0\<close>
      by (simp add: algebra_simps diff_mult_distrib2)
    then have dv: "step dvd (j - (i + step))" by simp
    have "Q (forLoop (i + step) n step body (body i s))"
    proof (rule 1(1)[OF _ 1(2) le 1(4) dv Ib])
      show "i < n \<and> 0 < step" using lt 1(2) by simp
    next
      fix k s' assume "i + step \<le> k" "k < n" "step dvd (k - (i + step))" "I s'"
      then show "I (body k s')" using 1(7)[of k s'] shift by simp
    next
      fix s' assume "I s'" then show "Q (body j s')" using 1(8) by simp
    next
      fix k s' assume "i + step \<le> k" "k < n" "step dvd (k - (i + step))" "I s'" "Q s'"
      then show "Q (body k s')" using 1(9)[of k s'] shift by simp
    qed
    then show ?thesis using unf by simp
  qed
qed

lemma toUint8Clamp_le: "toUint8Clamp v \<le> 255"
proof -
  have "nat \<lfloor>v\<rfloor> \<le> 255" "nat (\<lfloor>v\<rfloor> + 1) \<le> 255" if "v < 255"
    using that by linarith+
  then show ?thesis by (auto simp: toUint8Clamp_def Let_def)
qed

subsection \<open>What one round of each loop does to the buffer\<close>

lemma bytes_update: "bytes d \<Longrightarrow> v \<le> 255 \<Longrightarrow> bytes (d[i := v])"
  unfolding bytes_def using set_update_subset_insert[of d i v] by auto

lemma bytes_replicate: "bytes (replicate n 0)"
  by (simp add: bytes_def)

lemma pointFilter_shape:
  "\<exists>a b c. a \<le> 255 \<and> b \<le> 255 \<and> c \<le> 255 \<and>
     (pointFilter t i d = d[i := a, i + 1 := b, i + 2 := c] \<or> pointFilter t i d = d)"
  unfolding pointFilter_def Let_def
  by (auto split: prod.splits intro: toUint8Clamp_le)

lemma pointFilter_length: "length (pointFilter t i d) = length d"
  using pointFilter_shape[of t i d] by auto

lemma pointFilter_bytes: "bytes d \<Longrightarrow> bytes (pointFilter t i d)"
  using pointFilter_shape[of t i d] by (auto intro!: bytes_update)

lemma pointFilter_frame: "j < i \<or> i + 2 < j \<Longrightarrow> pointFilter t i d ! j = d ! j"
  using pointFilter_shape[of t i d] by auto

lemma putGray_length: "length (putGray out idx v) = length out"
  by (simp add: putGray_def)

lemma putGray_bytes: "bytes out \<Longrightarrow> bytes (putGray out idx v)"
  by (simp add: putGray_def bytes_update toUint8Clamp_le)

lemma waveletBlock_length: "length (waveletBlock w h d y x out) = length out"
  by (simp add: waveletBlock_def Let_def putGray_length split: prod.splits)

lemma waveletBlock_bytes: "bytes out \<Longrightarrow> bytes (waveletBlock w h d y x out)"
  by (simp add: waveletBlock_def Let_def putGray_bytes split: prod.splits)

lemma convPixel_length: "length (convPixel t w h d y x out) = length out"
  by (simp add: convPixel_def Let_def split: prod.splits)

lemma convPixel_bytes: "bytes out \<Longrightarrow> bytes (convPixel t w h d y x out)"
  by (simp add: convPixel_def Let_def bytes_update toUint8Clamp_le split: prod.splits)

lemma convPixel_frame:
  "j < (y * w + x) * 4 \<or> (y * w + x) * 4 + 3 < j \<Longrightarrow> convPixel t w h d y x out ! j = out ! j"
  by (auto simp add: convPixel_def Let_def split: prod.splits)

lemma convPixel_alpha:
  "isStructuralView t \<Longrightarrow> t \<noteq> WAVELET \<Longrightarrow> (y * w + x) * 4 + 3 < length out \<Longrightarrow>
   convPixel t w h d y x out ! ((y * w + x) * 4 + 3) = 255"
  by (auto simp add: convPixel_def Let_def isStructuralView_def split: prod.splits)

subsection \<open>Every stored value is a byte\<close>

lemma wavelet_bytes: "bytes out \<Longrightarrow> bytes (wavelet w h d out)"
  unfolding wavelet_def
  by (rule forLoop_invariant, assumption, rule forLoop_invariant, assumption)
     (rule waveletBlock_bytes)

lemma convolve_bytes: "bytes out \<Longrightarrow> bytes (convolve t w h d out)"
  unfolding convolve_def
  by (rule forLoop_invariant, assumption, rule forLoop_invariant, assumption)
     (rule convPixel_bytes)

lemma pointLoop_bytes: "bytes d \<Longrightarrow> bytes (forLoop 0 n 4 (pointFilter t) d)"
  by (rule forLoop_invariant, assumption) (rule pointFilter_bytes)

subsection \<open>The value of one pixel after the loops\<close>

lemma pointLoop_length: "length (forLoop i n 4 (pointFilter t) d) = length d"
  by (rule forLoop_invariant[where I = "\<lambda>s. length s = length d"]) (simp_all add: pointFilter_length)

lemma pointLoop_alpha: "forLoop 0 n 4 (pointFilter t) d ! (4 * p + 3) = d ! (4 * p + 3)"
proof (rule forLoop_invariant[where I = "\<lambda>s. s ! (4 * p + 3) = d ! (4 * p + 3)"])
  show "d ! (4 * p + 3) = d ! (4 * p + 3)" by simp
next
  fix k :: nat and s' :: "nat list"
  assume h: "4 dvd (k - 0)" "s' ! (4 * p + 3) = d ! (4 * p + 3)"
  have "4 * p + 3 < k \<or> k + 2 < 4 * p + 3" using h(1) by presburger
  then show "pointFilter t k s' ! (4 * p + 3) = d ! (4 * p + 3)"
    using h(2) by (simp add: pointFilter_frame)
qed

lemma pixel_index_inj:
  assumes "x < w" "x' < w" "y * w + x = y' * w + x'"
  shows "y = y' \<and> x = (x' :: nat)"
proof -
  have "(y * w + x) div w = y" "(y' * w + x') div w = y'" using assms(1,2) by simp_all
  moreover have "(y * w + x) div w = (y' * w + x') div w" by (simp only: assms(3))
  ultimately have "y = y'" by simp
  then show ?thesis using assms(3) by simp
qed

lemma pixel_disjoint:
  assumes "x < w" "x' < w" "y \<noteq> y' \<or> x \<noteq> (x' :: nat)" "k < 4"
  shows "(y * w + x) * 4 + k < (y' * w + x') * 4 \<or> (y' * w + x') * 4 + 3 < (y * w + x) * 4 + k"
proof -
  define a b where "a = y * w + x" and "b = y' * w + x'"
  have "a \<noteq> b" unfolding a_def b_def using pixel_index_inj[OF assms(1,2)] assms(3) by blast
  then have "a * 4 + k < b * 4 \<or> b * 4 + 3 < a * 4 + k" using assms(4) by linarith
  then show ?thesis by (simp only: a_def b_def)
qed

lemma pixel_in_range:
  assumes "x < w" "y < (h :: nat)" "k < 4"
  shows "(y * w + x) * 4 + k < w * h * 4"
proof -
  have "y * w + x < (y + 1) * w" using assms(1) by simp
  also have "\<dots> \<le> h * w" using assms(2) by (intro mult_le_mono1) simp
  finally have lt: "y * w + x < w * h" by (simp add: mult.commute)
  define a b where "a = y * w + x" and "b = w * h"
  have "a < b" using lt by (simp only: a_def b_def)
  then have "a * 4 + k < b * 4" using assms(3) by linarith
  then show ?thesis by (simp only: a_def b_def)
qed

lemma convRow_length: "length (forLoop i w 1 (\<lambda>x out''. convPixel t w h d y x out'') out) = length out"
  by (rule forLoop_invariant[where I = "\<lambda>s. length s = length out"]) (simp_all add: convPixel_length)

lemma convolve_length: "length (convolve t w h d out) = length out"
  unfolding convolve_def
proof (rule forLoop_invariant[where I = "\<lambda>s. length s = length out"])
  show "length out = length out" by simp
next
  fix k :: nat and s' :: "nat list"
  assume "length s' = length out"
  then show "length (forLoop 0 w 1 (\<lambda>x out''. convPixel t w h d k x out'') s') = length out"
    by (simp only: convRow_length)
qed

lemma convolve_pixel:
  assumes len: "length out = w * h * 4" and x: "x < w" and y: "y < h" and k: "k < 4"
    and v: "\<And>out'. length out' = w * h * 4 \<Longrightarrow> convPixel t w h d y x out' ! ((y * w + x) * 4 + k) = v"
  shows "convolve t w h d out ! ((y * w + x) * 4 + k) = v"
proof -
  let ?I = "\<lambda>s :: nat list. length s = w * h * 4"
  let ?Q = "\<lambda>s :: nat list. s ! ((y * w + x) * 4 + k) = v"
  let ?row = "\<lambda>y' out'. forLoop 0 w 1 (\<lambda>x' out''. convPixel t w h d y' x' out'') out'"
  have keepPix: "?Q (convPixel t w h d y' x' s)" if "x' < w" "?I s" "?Q s" for y' x' s
  proof (cases "y = y' \<and> x = x'")
    case True then show ?thesis using v[OF that(2)] by simp
  next
    case False
    then have "convPixel t w h d y' x' s ! ((y * w + x) * 4 + k) = s ! ((y * w + x) * 4 + k)"
      using pixel_disjoint[OF x that(1) _ k, of y y'] by (intro convPixel_frame) auto
    then show ?thesis using that(3) by simp
  qed
  have lenRow: "?I (?row y' s)" if "?I s" for y' s
    using that by (simp only: convRow_length)
  have estRow: "?Q (?row y s)" if "?I s" for s
  proof (rule forLoop_reaches[where j = x and I = ?I and Q = ?Q])
    show "length s = w * h * 4" by (rule that)
    show "0 < (1::nat)" "0 \<le> x" "1 dvd (x - 0)" by simp_all
    show "x < w" by (rule x)
  next
    fix k' :: nat and s' :: "nat list" assume "?I s'"
    then show "?I (convPixel t w h d y k' s')" by (simp only: convPixel_length)
  next
    fix s' :: "nat list" assume "?I s'"
    then show "?Q (convPixel t w h d y x s')" by (rule v)
  next
    fix k' :: nat and s' :: "nat list" assume "k' < w" "?I s'" "?Q s'"
    then show "?Q (convPixel t w h d y k' s')" by (rule keepPix)
  qed
  have keepRow: "?Q (?row y' s)" if "?I s" "?Q s" for y' s
  proof -
    have "?I (?row y' s) \<and> ?Q (?row y' s)"
    proof (rule forLoop_invariant[where I = "\<lambda>s. ?I s \<and> ?Q s"])
      show "?I s \<and> ?Q s" using that by simp
    next
      fix k' :: nat and s' :: "nat list" assume h: "k' < w" "?I s' \<and> ?Q s'"
      have "?I (convPixel t w h d y' k' s')" using h(2) by (simp only: convPixel_length)
      moreover have "?Q (convPixel t w h d y' k' s')" using h by (intro keepPix) simp_all
      ultimately show "?I (convPixel t w h d y' k' s') \<and> ?Q (convPixel t w h d y' k' s')" ..
    qed
    then show ?thesis ..
  qed
  show ?thesis
    unfolding convolve_def
  proof (rule forLoop_reaches[where j = y and I = ?I and Q = ?Q])
    show "length out = w * h * 4" by (rule len)
    show "0 < (1::nat)" "0 \<le> y" "1 dvd (y - 0)" by simp_all
    show "y < h" by (rule y)
  next
    fix k' :: nat and s' :: "nat list" assume "?I s'"
    then show "?I (?row k' s')" by (rule lenRow)
  next
    fix s' :: "nat list" assume "?I s'"
    then show "?Q (?row y s')" by (rule estRow)
  next
    fix k' :: nat and s' :: "nat list" assume "?I s'" "?Q s'"
    then show "?Q (?row k' s')" by (rule keepRow)
  qed
qed

subsection \<open>Concrete runs\<close>

lemma eco_saturates:
  "render \<lparr>width = 1, height = 1, data = [10, 255, 250, 255]\<rparr> ECO
     = Inr \<lparr>width = 1, height = 1, data = [8, 255, 200, 255]\<rparr>"
  by (simp add: render_def isPointView_def forLoop_step forLoop_done pointFilter_def
      toUint8Clamp_def)

subsection \<open>Clamped access\<close>

lemma getPixelIndex_eq:
  assumes "0 < w" "0 < h"
  obtains cx cy where "int cx = max 0 (min (int w - 1) x)" "int cy = max 0 (min (int h - 1) y)"
    "cx < w" "cy < h" "getPixelIndex w h x y = (cy * w + cx) * 4"
proof -
  define cx where "cx = nat (max 0 (min (int w - 1) x))"
  define cy where "cy = nat (max 0 (min (int h - 1) y))"
  have 1: "int cx = max 0 (min (int w - 1) x)" "int cy = max 0 (min (int h - 1) y)"
    by (simp_all add: cx_def cy_def)
  have 2: "cx < w" "cy < h" using assms by (auto simp: cx_def cy_def)
  have "getPixelIndex w h x y = nat ((int cy * int w + int cx) * 4)"
    by (simp add: getPixelIndex_def Let_def 1)
  also have "\<dots> = nat (int ((cy * w + cx) * 4))" by simp
  also have "\<dots> = (cy * w + cx) * 4" by (rule nat_int)
  finally show ?thesis using 1 2 that by blast
qed

lemma getPixelIndex_1x1: "getPixelIndex 1 1 x y = 0"
  by (simp add: getPixelIndex_def)

lemma render_total: "0 < width img \<Longrightarrow> 0 < height img \<Longrightarrow> \<exists>out. render img t = Inr out"
  by (simp add: render_def Let_def)

subsection \<open>The alpha channel\<close>

lemma nth_update_any: "xs[i := v] ! j = (if i = j \<and> j < length xs then v else xs ! j)"
  by (cases "i < length xs") (auto simp: nth_list_update list_update_beyond)

lemma putGray_alpha_keep:
  assumes "4 dvd idx" "out ! (4 * p + 3) = 255"
  shows "putGray out idx v ! (4 * p + 3) = 255"
proof -
  have ne: "idx + 2 \<noteq> 4 * p + 3" "idx + 1 \<noteq> 4 * p + 3" "idx \<noteq> 4 * p + 3"
    using assms(1) by presburger+
  show ?thesis
    unfolding putGray_def using ne assms(2) by (simp add: nth_update_any)
qed

lemma putGray_alpha_set:
  assumes "idx + 3 < length out"
  shows "putGray out idx v ! (idx + 3) = 255"
  unfolding putGray_def using assms by simp

lemma idx_dvd:
  "4 dvd idxLL w xo yo" "4 dvd idxLH w hw xo yo" "4 dvd idxHL w hh xo yo" "4 dvd idxHH w hw hh xo yo"
  by (simp_all add: idxLL_def idxLH_def idxHL_def idxHH_def)

lemma waveletBlock_alpha_keep:
  assumes "out ! (4 * p + 3) = 255"
  shows "waveletBlock w h d y x out ! (4 * p + 3) = 255"
  unfolding waveletBlock_def Let_def using assms
  by (simp add: putGray_alpha_keep idx_dvd split: prod.splits)

text \<open>The block that writes the output pixel in column X (row Y).\<close>

lemma quadrant_cover:
  fixes X w :: nat
  assumes "X < w"
  obtains x where "even x" "x < w" "x div 2 = X \<or> x div 2 + w div 2 = X"
proof (cases "X < w div 2")
  case True
  have "even (2 * X)" "(2 * X) div 2 = X" by simp_all
  moreover have "2 * X < w" using True by presburger
  ultimately show ?thesis using that by blast
next
  case False
  have "even (2 * (X - w div 2))" by simp
  moreover have "2 * (X - w div 2) < w" using False assms by presburger
  moreover have "(2 * (X - w div 2)) div 2 + w div 2 = X" using False by simp
  ultimately show ?thesis using that by blast
qed

lemma waveletBlock_alpha_set:
  assumes len: "length out = w * h * 4" and X: "X < w" and Y: "Y < h"
    and x: "x div 2 = X \<or> x div 2 + w div 2 = X"
    and y: "y div 2 = Y \<or> y div 2 + h div 2 = Y"
  shows "waveletBlock w h d y x out ! (4 * (Y * w + X) + 3) = 255"
proof -
  let ?p = "Y * w + X"
  have inr: "4 * ?p + 3 < w * h * 4" using pixel_in_range[OF X Y, of 3] by (simp add: mult.commute)
  have set: "putGray o' (4 * ?p) v ! (4 * ?p + 3) = 255" if "length o' = w * h * 4" for o' v
    using putGray_alpha_set[of "4 * ?p" o' v] inr that by simp
  have keep: "putGray o' idx v ! (4 * ?p + 3) = 255" if "4 dvd idx" "o' ! (4 * ?p + 3) = 255" for o' idx v
    using that by (rule putGray_alpha_keep)
  obtain LL LH HL HH where hr: "haar (getGray d (getPixelIndex w h (int x) (int y)))
         (getGray d (getPixelIndex w h (int x + 1) (int y)))
         (getGray d (getPixelIndex w h (int x) (int y + 1)))
         (getGray d (getPixelIndex w h (int x + 1) (int y + 1))) = (LL, LH, HL, HH)"
    using prod_cases4 by blast
  define o1 where "o1 = putGray out (idxLL w (x div 2) (y div 2)) LL"
  define o2 where "o2 = putGray o1 (idxLH w (w div 2) (x div 2) (y div 2)) LH"
  define o3 where "o3 = putGray o2 (idxHL w (h div 2) (x div 2) (y div 2)) HL"
  define o4 where "o4 = putGray o3 (idxHH w (w div 2) (h div 2) (x div 2) (y div 2)) HH"
  have wb: "waveletBlock w h d y x out = o4"
    by (simp add: waveletBlock_def Let_def hr o1_def o2_def o3_def o4_def)
  have l: "length o1 = w * h * 4" "length o2 = w * h * 4" "length o3 = w * h * 4"
    by (simp_all add: o1_def o2_def o3_def putGray_length len)
  consider (ll) "x div 2 = X" "y div 2 = Y" | (lh) "x div 2 + w div 2 = X" "y div 2 = Y"
    | (hl) "x div 2 = X" "y div 2 + h div 2 = Y" | (hh) "x div 2 + w div 2 = X" "y div 2 + h div 2 = Y"
    using x y by blast
  then have "o4 ! (4 * ?p + 3) = 255"
  proof cases
    case ll
    then have "idxLL w (x div 2) (y div 2) = 4 * ?p" by (simp add: idxLL_def)
    then have "o1 ! (4 * ?p + 3) = 255" using set[OF len] by (simp add: o1_def)
    then show ?thesis unfolding o4_def o3_def o2_def by (intro keep idx_dvd)
  next
    case lh
    then have "idxLH w (w div 2) (x div 2) (y div 2) = 4 * ?p" by (simp add: idxLH_def)
    then have "o2 ! (4 * ?p + 3) = 255" using set[OF l(1)] by (simp add: o2_def)
    then show ?thesis unfolding o4_def o3_def by (intro keep idx_dvd)
  next
    case hl
    then have "idxHL w (h div 2) (x div 2) (y div 2) = 4 * ?p" by (simp add: idxHL_def)
    then have "o3 ! (4 * ?p + 3) = 255" using set[OF l(2)] by (simp add: o3_def)
    then show ?thesis unfolding o4_def by (intro keep idx_dvd)
  next
    case hh
    then have "idxHH w (w div 2) (h div 2) (x div 2) (y div 2) = 4 * ?p" by (simp add: idxHH_def)
    then show ?thesis using set[OF l(3)] by (simp add: o4_def)
  qed
  then show ?thesis by (simp only: wb)
qed

lemma waveletRow_length:
  "length (forLoop i w 2 (\<lambda>x out''. waveletBlock w h d y x out'') out) = length out"
  by (rule forLoop_invariant[where I = "\<lambda>s. length s = length out"])
     (simp_all add: waveletBlock_length)

lemma wavelet_length: "length (wavelet w h d out) = length out"
  unfolding wavelet_def
proof (rule forLoop_invariant[where I = "\<lambda>s. length s = length out"])
  show "length out = length out" by simp
next
  fix k :: nat and s' :: "nat list"
  assume "length s' = length out"
  then show "length (forLoop 0 w 2 (\<lambda>x out''. waveletBlock w h d k x out'') s') = length out"
    by (simp only: waveletRow_length)
qed

lemma wavelet_alpha:
  assumes len: "length out = w * h * 4" and X: "X < w" and Y: "Y < h"
  shows "wavelet w h d out ! (4 * (Y * w + X) + 3) = 255"
proof -
  obtain x where x: "even x" "x < w" "x div 2 = X \<or> x div 2 + w div 2 = X"
    using quadrant_cover[OF X] by blast
  obtain y where y: "even y" "y < h" "y div 2 = Y \<or> y div 2 + h div 2 = Y"
    using quadrant_cover[OF Y] by blast
  let ?I = "\<lambda>s :: nat list. length s = w * h * 4"
  let ?Q = "\<lambda>s :: nat list. s ! (4 * (Y * w + X) + 3) = 255"
  let ?row = "\<lambda>y' out'. forLoop 0 w 2 (\<lambda>x' out''. waveletBlock w h d y' x' out'') out'"
  have lenRow: "?I (?row y' s)" if "?I s" for y' s
    using that by (simp only: waveletRow_length)
  have keepRow: "?Q (?row y' s)" if "?Q s" for y' s
    by (rule forLoop_invariant[where I = ?Q], rule that, rule waveletBlock_alpha_keep)
  have estRow: "?Q (?row y s)" if "?I s" for s
  proof (rule forLoop_reaches[where j = x and I = ?I and Q = ?Q])
    show "length s = w * h * 4" by (rule that)
    show "0 < (2::nat)" "0 \<le> x" by simp_all
    show "2 dvd (x - 0)" using x(1) by simp
    show "x < w" by (rule x(2))
  next
    fix k' :: nat and s' :: "nat list" assume "?I s'"
    then show "?I (waveletBlock w h d y k' s')" by (simp only: waveletBlock_length)
  next
    fix s' :: "nat list" assume "?I s'"
    then show "?Q (waveletBlock w h d y x s')"
      using X Y x(3) y(3) by (rule waveletBlock_alpha_set)
  next
    fix k' :: nat and s' :: "nat list" assume "?Q s'"
    then show "?Q (waveletBlock w h d y k' s')" by (rule waveletBlock_alpha_keep)
  qed
  show ?thesis
    unfolding wavelet_def
  proof (rule forLoop_reaches[where j = y and I = ?I and Q = ?Q])
    show "length out = w * h * 4" by (rule len)
    show "0 < (2::nat)" "0 \<le> y" by simp_all
    show "2 dvd (y - 0)" using y(1) by simp
    show "y < h" by (rule y(2))
  next
    fix k' :: nat and s' :: "nat list" assume "?I s'"
    then show "?I (?row k' s')" by (rule lenRow)
  next
    fix s' :: "nat list" assume "?I s'"
    then show "?Q (?row y s')" by (rule estRow)
  next
    fix k' :: nat and s' :: "nat list" assume "?Q s'"
    then show "?Q (?row k' s')" by (rule keepRow)
  qed
qed

lemma convolve_alpha:
  assumes len: "length out = w * h * 4" and X: "X < w" and Y: "Y < h"
    and t: "isStructuralView t" "t \<noteq> WAVELET"
  shows "convolve t w h d out ! (4 * (Y * w + X) + 3) = 255"
proof -
  have "convolve t w h d out ! ((Y * w + X) * 4 + 3) = 255"
  proof (rule convolve_pixel[OF len X Y])
    show "(3::nat) < 4" by simp
  next
    fix out' :: "nat list" assume l: "length out' = w * h * 4"
    have "(Y * w + X) * 4 + 3 < length out'" using pixel_in_range[OF X Y, of 3] l by simp
    then show "convPixel t w h d Y X out' ! ((Y * w + X) * 4 + 3) = 255"
      using t by (intro convPixel_alpha)
  qed
  then show ?thesis by (simp add: mult.commute)
qed

lemma pixel_coords:
  assumes "p < w * h"
  obtains X Y :: nat where "X < w" "Y < h" "p = Y * w + X"
proof -
  have w: "0 < w" using assms by (cases w) simp_all
  have "p mod w < w" using w by simp
  moreover have "p div w < h" using assms w by (simp add: less_mult_imp_div_less mult.commute)
  moreover have "p = (p div w) * w + p mod w" by simp
  ultimately show ?thesis using that by blast
qed

lemma grayscale_keeps_alpha:
  "render \<lparr>width = 1, height = 1, data = [0, 0, 0, 128]\<rparr> GRAYSCALE
     = Inr \<lparr>width = 1, height = 1, data = [0, 0, 0, 128]\<rparr>"
  by (simp add: render_def isPointView_def forLoop_step forLoop_done pointFilter_def
      toUint8Clamp_def)

subsection \<open>The gradient views\<close>

lemma convPixel_magnitude:
  assumes "(y * w + x) * 4 + 3 < length out" "k < 3"
  shows "convPixel GRADIENT_MAGNITUDE w h d y x out ! ((y * w + x) * 4 + k)
           = toUint8Clamp (magnitude w h d (int x) (int y))"
proof -
  have "k = 0 \<or> k = 1 \<or> k = 2" using assms(2) by linarith
  then show ?thesis using assms(1) by (auto simp add: convPixel_def Let_def)
qed

lemma convPixel_zeroCrossing:
  assumes "(y * w + x) * 4 + 3 < length out" "k < 3"
  shows "convPixel ZERO_CROSSING w h d y x out ! ((y * w + x) * 4 + k)
           = toUint8Clamp (zeroCrossing w h d (int x) (int y))"
proof -
  have "k = 0 \<or> k = 1 \<or> k = 2" using assms(2) by linarith
  then show ?thesis using assms(1) by (auto simp add: convPixel_def Let_def)
qed

lemma convolve_value:
  assumes x: "x < w" and y: "y < h" and k: "k < 3"
    and v: "\<And>out'. (y * w + x) * 4 + 3 < length out' \<Longrightarrow>
                convPixel t w h d y x out' ! ((y * w + x) * 4 + k) = v"
  shows "convolve t w h d (replicate (w * h * 4) 0) ! ((y * w + x) * 4 + k) = v"
proof (rule convolve_pixel[OF _ x y])
  show "length (replicate (w * h * 4) (0::nat)) = w * h * 4" by simp
  show "k < 4" using k by simp
next
  fix out' :: "nat list" assume "length out' = w * h * 4"
  then have "(y * w + x) * 4 + 3 < length out'" using pixel_in_range[OF x y, of 3] by simp
  then show "convPixel t w h d y x out' ! ((y * w + x) * 4 + k) = v" by (rule v)
qed

lemma render_convolve:
  assumes "0 < width img" "0 < height img" "isStructuralView t" "t \<noteq> WAVELET"
  shows "render img t = Inr (img\<lparr>data := convolve t (width img) (height img) (data img)
                                        (replicate (width img * height img * 4) 0)\<rparr>)"
  using assms by (auto simp add: render_def Let_def isStructuralView_def isPointView_def)

lemma magnitude_edge:
  "magnitude 2 1 [0, 0, 0, 255, 255, 255, 255, 255] 0 0 = 1020"
  by (simp add: magnitude_def sobel_def getPixelIndex_def getGray_def Let_def)

subsection \<open>A uniform source\<close>

lemma getGray_uniform:
  assumes "0 < w" "0 < h"
    and u: "\<forall>p < w * h. d ! (4 * p) = r \<and> d ! (4 * p + 1) = g \<and> d ! (4 * p + 2) = b"
  shows "getGray d (getPixelIndex w h x y) = 0.299 * real r + 0.587 * real g + 0.114 * real b"
proof -
  obtain cx cy where c: "cx < w" "cy < h" "getPixelIndex w h x y = (cy * w + cx) * 4"
    using getPixelIndex_eq[OF assms(1,2), of x y] by metis
  have "(cy * w + cx) * 4 + 0 < w * h * 4" using c(1,2) by (intro pixel_in_range) simp_all
  then have "cy * w + cx < w * h" by simp
  then have "d ! (4 * (cy * w + cx)) = r \<and> d ! (4 * (cy * w + cx) + 1) = g
              \<and> d ! (4 * (cy * w + cx) + 2) = b" using u by blast
  then show ?thesis by (simp add: getGray_def c(3) mult.commute)
qed

lemma magnitude_uniform:
  assumes "0 < w" "0 < h"
    and u: "\<forall>p < w * h. d ! (4 * p) = r \<and> d ! (4 * p + 1) = g \<and> d ! (4 * p + 2) = b"
  shows "magnitude w h d x y = 0"
  by (simp add: magnitude_def sobel_def Let_def getGray_uniform[OF assms])

lemma zeroCrossing_uniform:
  assumes "0 < w" "0 < h"
    and u: "\<forall>p < w * h. d ! (4 * p) = r \<and> d ! (4 * p + 1) = g \<and> d ! (4 * p + 2) = b"
  shows "zeroCrossing w h d x y = 128"
  by (simp add: zeroCrossing_def Let_def getGray_uniform[OF assms])

lemma zeroCrossing_value_black: "zeroCrossing 1 1 [0, 0, 0, 255] 0 0 = 128"
  by (simp add: zeroCrossing_def getGray_def getPixelIndex_def Let_def)

lemma convolve_1x1: "convolve t 1 1 d out = convPixel t 1 1 d 0 0 out"
  by (simp add: convolve_def forLoop_step forLoop_done)

lemma zeroCrossing_black:
  "render \<lparr>width = 1, height = 1, data = [0, 0, 0, 255]\<rparr> ZERO_CROSSING
     = Inr \<lparr>width = 1, height = 1, data = [128, 128, 128, 255]\<rparr>"
proof -
  have t: "toUint8Clamp 128 = 128" by (simp add: toUint8Clamp_def)
  have "convPixel ZERO_CROSSING 1 1 [0, 0, 0, 255] 0 0 (replicate 4 0) = [128, 128, 128, 255]"
    using zeroCrossing_value_black t by (simp add: convPixel_def Let_def numeral_eq_Suc)
  then show ?thesis
    by (simp add: render_def isPointView_def isStructuralView_def
        convolve_1x1[unfolded One_nat_def])
qed

subsection \<open>Concrete wavelet runs\<close>




lemma stored_values: "toUint8Clamp 60 = 60" "toUint8Clamp 128 = 128" "toUint8Clamp 108 = 108"
  "toUint8Clamp 200 = 200" "toUint8Clamp 125 = 125" "toUint8Clamp 78 = 78" "toUint8Clamp 153 = 153"
  by (simp_all add: toUint8Clamp_def)



lemma wavelet_2x2_loops: "wavelet 2 2 d out = waveletBlock 2 2 d 0 0 out"
  by (simp add: wavelet_def forLoop_step forLoop_done numeral_2_eq_2)

lemma waveletBlock_2x2:
  "waveletBlock 2 2 [100, 100, 100, 255, 150, 150, 150, 255,
                     50, 50, 50, 255, 200, 200, 200, 255] 0 0 out
   = putGray (putGray (putGray (putGray out 0 125) 4 128) 8 78) 12 153"
  by (simp add: waveletBlock_def getPixelIndex_def getGray_def haar_def idxLL_def idxLH_def
      idxHL_def idxHH_def)

lemma wavelet_2x2:
  "wavelet 2 2 [100, 100, 100, 255, 150, 150, 150, 255,
                50, 50, 50, 255, 200, 200, 200, 255] (replicate 16 0)
     = [125, 125, 125, 255, 128, 128, 128, 255, 78, 78, 78, 255, 153, 153, 153, 255]"
  unfolding wavelet_2x2_loops waveletBlock_2x2 putGray_def stored_values
  by code_simp

lemma render_wavelet_2x2:
  "render \<lparr>width = 2, height = 2,
            data = [100, 100, 100, 255, 150, 150, 150, 255,
                    50, 50, 50, 255, 200, 200, 200, 255]\<rparr> WAVELET
     = Inr \<lparr>width = 2, height = 2,
              data = [125, 125, 125, 255, 128, 128, 128, 255,
                      78, 78, 78, 255, 153, 153, 153, 255]\<rparr>"
  using wavelet_2x2 by (simp add: render_def isPointView_def isStructuralView_def)

subsection \<open>The wavelet loops on odd dimensions\<close>






























subsection \<open>The magnitude views, whatever the arithmetic\<close>

lemma getGrayA_exact: "getGrayA exactReals d i = getGray d i"
  by (simp add: getGrayA_def getGray_def exactReals_def)

lemma sobelA_exact: "sobelA exactReals w h d x y = sobel w h d x y"
  by (simp add: sobelA_def sobel_def getGrayA_exact Let_def) (simp add: exactReals_def)

lemma magnitudeA_exact: "magnitudeA exactReals w h d x y = magnitude w h d x y"
  by (simp add: magnitudeA_def magnitude_def sobelA_exact) (simp add: exactReals_def)

lemma magnitudeA_spec:
  "magnitudeA A w h d x y
     = specMagnitude A (\<lambda>dx dy. getGrayA A d (getPixelIndex w h (x + dx) (y + dy)))"
  by (simp add: magnitudeA_def sobelA_def specMagnitude_def specGx_def specGy_def Let_def)

lemma pixelLoops_value:
  fixes body :: "nat \<Rightarrow> nat \<Rightarrow> nat list \<Rightarrow> nat list"
  assumes len: "length out = w * h * 4" and x: "x < w" and y: "y < h" and k: "k < 4"
    and blen: "\<And>y' x' s. length (body y' x' s) = length s"
    and frame: "\<And>y' x' s j. j < (y' * w + x') * 4 \<or> (y' * w + x') * 4 + 3 < j
                  \<Longrightarrow> body y' x' s ! j = s ! j"
    and v: "\<And>s. length s = w * h * 4 \<Longrightarrow> body y x s ! ((y * w + x) * 4 + k) = v"
  shows "forLoop 0 h 1 (\<lambda>y' out'. forLoop 0 w 1 (\<lambda>x' out''. body y' x' out'') out') out
           ! ((y * w + x) * 4 + k) = v"
proof -
  let ?I = "\<lambda>s :: nat list. length s = w * h * 4"
  let ?Q = "\<lambda>s :: nat list. s ! ((y * w + x) * 4 + k) = v"
  let ?row = "\<lambda>y' out'. forLoop 0 w 1 (\<lambda>x' out''. body y' x' out'') out'"
  have keepPix: "?Q (body y' x' s)" if "x' < w" "?I s" "?Q s" for y' x' s
  proof (cases "y = y' \<and> x = x'")
    case True then show ?thesis using v[OF that(2)] by simp
  next
    case False
    then have "body y' x' s ! ((y * w + x) * 4 + k) = s ! ((y * w + x) * 4 + k)"
      using pixel_disjoint[OF x that(1) _ k, of y y'] by (intro frame) auto
    then show ?thesis using that(3) by simp
  qed
  have lenRow: "?I (?row y' s)" if "?I s" for y' s
  proof (rule forLoop_invariant[where I = ?I])
    show "?I s" by (rule that)
  next
    fix k' :: nat and s' :: "nat list" assume "?I s'"
    then show "?I (body y' k' s')" by (simp only: blen)
  qed
  have estRow: "?Q (?row y s)" if "?I s" for s
  proof (rule forLoop_reaches[where j = x and I = ?I and Q = ?Q])
    show "length s = w * h * 4" by (rule that)
    show "0 < (1::nat)" "0 \<le> x" "1 dvd (x - 0)" by simp_all
    show "x < w" by (rule x)
  next
    fix k' :: nat and s' :: "nat list" assume "?I s'"
    then show "?I (body y k' s')" by (simp only: blen)
  next
    fix s' :: "nat list" assume "?I s'"
    then show "?Q (body y x s')" by (rule v)
  next
    fix k' :: nat and s' :: "nat list" assume "k' < w" "?I s'" "?Q s'"
    then show "?Q (body y k' s')" by (rule keepPix)
  qed
  have keepRow: "?Q (?row y' s)" if "?I s" "?Q s" for y' s
  proof -
    have "?I (?row y' s) \<and> ?Q (?row y' s)"
    proof (rule forLoop_invariant[where I = "\<lambda>s. ?I s \<and> ?Q s"])
      show "?I s \<and> ?Q s" using that by simp
    next
      fix k' :: nat and s' :: "nat list" assume h: "k' < w" "?I s' \<and> ?Q s'"
      have "?I (body y' k' s')" using h(2) by (simp only: blen)
      moreover have "?Q (body y' k' s')" using h by (intro keepPix) simp_all
      ultimately show "?I (body y' k' s') \<and> ?Q (body y' k' s')" ..
    qed
    then show ?thesis ..
  qed
  show ?thesis
  proof (rule forLoop_reaches[where j = y and I = ?I and Q = ?Q])
    show "length out = w * h * 4" by (rule len)
    show "0 < (1::nat)" "0 \<le> y" "1 dvd (y - 0)" by simp_all
    show "y < h" by (rule y)
  next
    fix k' :: nat and s' :: "nat list" assume "?I s'"
    then show "?I (?row k' s')" by (rule lenRow)
  next
    fix s' :: "nat list" assume "?I s'"
    then show "?Q (?row y s')" by (rule estRow)
  next
    fix k' :: nat and s' :: "nat list" assume "?I s'" "?Q s'"
    then show "?Q (?row k' s')" by (rule keepRow)
  qed
qed

lemma magnitudePixelA_length: "length (magnitudePixelA A t w h d y x out) = length out"
  by (simp add: magnitudePixelA_def Let_def)

lemma magnitudePixelA_frame:
  "j < (y * w + x) * 4 \<or> (y * w + x) * 4 + 3 < j
     \<Longrightarrow> magnitudePixelA A t w h d y x out ! j = out ! j"
  by (auto simp add: magnitudePixelA_def Let_def)

lemma magnitudePixelA_magnitude:
  assumes "(y * w + x) * 4 + 3 < length out" "k < 3"
  shows "magnitudePixelA A GRADIENT_MAGNITUDE w h d y x out ! ((y * w + x) * 4 + k)
           = fStore A (magnitudeA A w h d (int x) (int y))"
proof -
  have "k = 0 \<or> k = 1 \<or> k = 2" using assms(2) by linarith
  then show ?thesis using assms(1) by (auto simp add: magnitudePixelA_def Let_def)
qed

lemma magnitudePixelA_skeleton:
  assumes "(y * w + x) * 4 + 3 < length out" "k < 3"
  shows "magnitudePixelA A SKELETON w h d y x out ! ((y * w + x) * 4 + k)
           = fStore A (if fGt A (magnitudeA A w h d (int x) (int y)) (fLit A 50)
                       then magnitudeA A w h d (int x) (int y) else fLit A 0)"
proof -
  have "k = 0 \<or> k = 1 \<or> k = 2" using assms(2) by linarith
  then show ?thesis using assms(1) by (auto simp add: magnitudePixelA_def Let_def)
qed

lemma renderMagnitudeA_value:
  assumes x: "x < width img" and y: "y < height img" and k: "k < 3"
    and v: "\<And>s. (y * width img + x) * 4 + 3 < length s \<Longrightarrow>
              magnitudePixelA A t (width img) (height img) (data img) y x s
                ! ((y * width img + x) * 4 + k) = v"
  shows "\<exists>out. renderMagnitudeA A img t = Inr out \<and> data out ! ((y * width img + x) * 4 + k) = v"
proof -
  let ?w = "width img" and ?h = "height img" and ?d = "data img"
  have pos: "?w \<noteq> 0" "?h \<noteq> 0" using x y by auto
  have "forLoop 0 ?h 1 (\<lambda>y' out'. forLoop 0 ?w 1
          (\<lambda>x' out''. magnitudePixelA A t ?w ?h ?d y' x' out'') out') (replicate (?w * ?h * 4) 0)
          ! ((y * ?w + x) * 4 + k) = v"
  proof (rule pixelLoops_value[OF _ x y])
    show "length (replicate (?w * ?h * 4) (0::nat)) = ?w * ?h * 4" by simp
    show "k < 4" using k by simp
  next
    fix y' x' s show "length (magnitudePixelA A t ?w ?h ?d y' x' s) = length s"
      by (rule magnitudePixelA_length)
  next
    fix y' x' s j assume "j < (y' * ?w + x') * 4 \<or> (y' * ?w + x') * 4 + 3 < j"
    then show "magnitudePixelA A t ?w ?h ?d y' x' s ! j = s ! j"
      by (rule magnitudePixelA_frame)
  next
    fix s :: "nat list" assume "length s = ?w * ?h * 4"
    then have "(y * ?w + x) * 4 + 3 < length s" using pixel_in_range[OF x y, of 3] by simp
    then show "magnitudePixelA A t ?w ?h ?d y x s ! ((y * ?w + x) * 4 + k) = v" by (rule v)
  qed
  then show ?thesis using pos by (simp add: renderMagnitudeA_def Let_def)
qed

lemma magnitudePixelA_exact:
  assumes "t = GRADIENT_MAGNITUDE \<or> t = SKELETON \<or> t = BLUEPRINT"
  shows "magnitudePixelA exactReals t w h d y x out = convPixel t w h d y x out"
proof -
  have c: "toUint8Clamp 0 = 0" "toUint8Clamp 255 = 255" "toUint8Clamp 30 = 30"
    "toUint8Clamp 64 = 64" "toUint8Clamp 175 = 175"
    by (simp_all add: toUint8Clamp_def)
  have e: "fLit exactReals = (\<lambda>r. r)" "fStore exactReals = toUint8Clamp"
    "fGt exactReals = (\<lambda>a b. a > b)"
    by (simp_all add: exactReals_def)
  show ?thesis
    using assms
    by (auto simp add: magnitudePixelA_def convPixel_def Let_def magnitudeA_exact e c)
qed

lemma renderMagnitudeA_exact:
  assumes "t = GRADIENT_MAGNITUDE \<or> t = SKELETON \<or> t = BLUEPRINT"
  shows "renderMagnitudeA exactReals img t = render img t"
proof -
  have f: "magnitudePixelA exactReals t w h d y = convPixel t w h d y" for w h d y
    by (intro ext) (rule magnitudePixelA_exact[OF assms])
  show ?thesis
    using assms
    by (auto simp add: renderMagnitudeA_def render_def Let_def isPointView_def
        isStructuralView_def convolve_def f)
qed

lemma magnitude_soft_edge:
  "magnitude 2 1 [10, 10, 10, 255, 20, 20, 20, 255] 0 0 = 40"
  by (simp add: magnitude_def sobel_def getPixelIndex_def getGray_def Let_def)

section \<open>The claims\<close>

text \<open>
  C1 (amended). For every view other than Original the render returns a picture of the
  same dimensions, four bytes per pixel. In the seven structural views (Skeleton,
  Blueprint, the two gradient maps, Zero-Crossing, Feature Map, Wavelet) every pixel of
  it has alpha 255, whatever the alpha of the source. In the six point views (Grayscale,
  Heatmap, X-Ray, Eco, Binary, HSV) every pixel keeps the alpha of the source pixel:
  the loop rewrites the three colour bytes in place and never the fourth.
\<close>

theorem alpha_of_views:
  assumes "wellFormed img" and "t \<noteq> ORIGINAL" and "p < width img * height img"
  shows "\<exists>out. render img t = Inr out \<and> width out = width img \<and> height out = height img
           \<and> length (data out) = 4 * (width img * height img)
           \<and> data out ! (4 * p + 3) = (if isPointView t then data img ! (4 * p + 3) else 255)"
proof -
  obtain X Y where c: "X < width img" "Y < height img" "p = Y * width img + X"
    using pixel_coords[OF assms(3)] by blast
  have pos: "width img \<noteq> 0" "height img \<noteq> 0" using c by auto
  have wf: "length (data img) = 4 * (width img * height img)"
    using assms(1) by (simp add: wellFormed_def)
  have len: "length (replicate (width img * height img * 4) (0::nat)) = width img * height img * 4"
    by simp
  show ?thesis
  proof (cases "isPointView t")
    case True
    then show ?thesis using assms(2) pos wf
      by (simp add: render_def Let_def pointLoop_alpha pointLoop_length)
  next
    case False
    have st: "isStructuralView t" using False assms(2)
      by (cases t) (simp_all add: isPointView_def isStructuralView_def)
    show ?thesis
    proof (cases "t = WAVELET")
      case True
      then show ?thesis using False st pos wavelet_alpha[OF len c(1,2)] c(3)
        by (simp add: render_def Let_def wavelet_length)
    next
      case w: False
      then show ?thesis using False st pos convolve_alpha[OF len c(1,2) st w] c(3) assms(2)
        by (simp add: render_def Let_def convolve_length)
    qed
  qed
qed

theorem alpha_of_views_witness:
  "wellFormed \<lparr>width = 1, height = 1, data = [0, 0, 0, 128]\<rparr>
   \<and> GRAYSCALE \<noteq> ORIGINAL
   \<and> (0::nat) < width \<lparr>width = 1, height = 1, data = [0, 0, 0, 128]\<rparr>
            * height \<lparr>width = 1, height = 1, data = [0, 0, 0, 128]\<rparr>
   \<and> (\<exists>out. render \<lparr>width = 1, height = 1, data = [0, 0, 0, 128]\<rparr> GRAYSCALE = Inr out
          \<and> length (data out) = 4 \<and> data out ! (4 * 0 + 3) = 128)"
proof -
  have w: "wellFormed \<lparr>width = 1, height = 1, data = [0, 0, 0, 128]\<rparr>"
    by (simp add: wellFormed_def bytes_def)
  have p: "(0::nat) < width \<lparr>width = 1, height = 1, data = [0, 0, 0, 128]\<rparr>
            * height \<lparr>width = 1, height = 1, data = [0, 0, 0, 128]\<rparr>" by simp
  have t: "GRAYSCALE \<noteq> ORIGINAL" by simp
  show ?thesis using w p alpha_of_views[OF w t p] by (auto simp add: isPointView_def)
qed

text \<open>
  C1 as stated fails: the Grayscale view of a single black pixel of alpha 128 has
  alpha 128.
\<close>

theorem alpha_not_normalised_by_point_views:
  "render \<lparr>width = 1, height = 1, data = [0, 0, 0, 128]\<rparr> GRAYSCALE
     = Inr \<lparr>width = 1, height = 1, data = [0, 0, 0, 128]\<rparr>
   \<and> data \<lparr>width = 1, height = 1, data = [0, 0, 0, 128]\<rparr> ! 3 \<noteq> 255"
  using grayscale_keeps_alpha by simp

text \<open>
  C2 (amended). On a source, as \<^verbatim>\<open>getImageData\<close> returns it, whose pixels all have
  the same colour, every colour channel of every pixel of the Gradient Magnitude view
  is 0, and every colour channel of every pixel of the Zero-Crossing view is 128: the
  Laplacian vanishes and the view stores 128 + 2 * laplacian, so that no response is
  mid-grey.
\<close>

theorem flat_field_views:
  assumes "wellFormed img"
    and "\<forall>q < width img * height img.
             data img ! (4 * q) = r \<and> data img ! (4 * q + 1) = g \<and> data img ! (4 * q + 2) = b"
    and "p < width img * height img" and "k < 3"
  shows "\<exists>gm zc. render img GRADIENT_MAGNITUDE = Inr gm \<and> render img ZERO_CROSSING = Inr zc
           \<and> data gm ! (4 * p + k) = 0 \<and> data zc ! (4 * p + k) = 128"
proof -
  let ?w = "width img" and ?h = "height img" and ?d = "data img"
  let ?z = "replicate (?w * ?h * 4) (0::nat)"
  obtain x y where c: "x < ?w" "y < ?h" "p = y * ?w + x"
    using pixel_coords[OF assms(3)] by blast
  have pos: "0 < ?w" "0 < ?h" using c by auto
  have ix: "4 * p + k = (y * ?w + x) * 4 + k" using c(3) by simp
  have gm: "render img GRADIENT_MAGNITUDE = Inr (img\<lparr>data := convolve GRADIENT_MAGNITUDE ?w ?h ?d ?z\<rparr>)"
    by (rule render_convolve[OF pos]) (simp_all add: isStructuralView_def)
  have zc: "render img ZERO_CROSSING = Inr (img\<lparr>data := convolve ZERO_CROSSING ?w ?h ?d ?z\<rparr>)"
    by (rule render_convolve[OF pos]) (simp_all add: isStructuralView_def)
  have vg: "convolve GRADIENT_MAGNITUDE ?w ?h ?d ?z ! ((y * ?w + x) * 4 + k)
              = toUint8Clamp (magnitude ?w ?h ?d (int x) (int y))"
    by (rule convolve_value[OF c(1,2) assms(4)]) (rule convPixel_magnitude[OF _ assms(4)])
  have vz: "convolve ZERO_CROSSING ?w ?h ?d ?z ! ((y * ?w + x) * 4 + k)
              = toUint8Clamp (zeroCrossing ?w ?h ?d (int x) (int y))"
    by (rule convolve_value[OF c(1,2) assms(4)]) (rule convPixel_zeroCrossing[OF _ assms(4)])
  have t: "toUint8Clamp 0 = 0" "toUint8Clamp 128 = 128" by (simp_all add: toUint8Clamp_def)
  have "data (img\<lparr>data := convolve GRADIENT_MAGNITUDE ?w ?h ?d ?z\<rparr>) ! (4 * p + k) = 0"
    using vg t(1) by (simp add: ix magnitude_uniform[OF pos assms(2)])
  moreover have "data (img\<lparr>data := convolve ZERO_CROSSING ?w ?h ?d ?z\<rparr>) ! (4 * p + k) = 128"
    using vz t(2) by (simp add: ix zeroCrossing_uniform[OF pos assms(2)])
  ultimately show ?thesis using gm zc by blast
qed

theorem flat_field_views_witness:
  "wellFormed \<lparr>width = 2, height = 1, data = [10, 20, 30, 255, 10, 20, 30, 255]\<rparr>
   \<and> (\<exists>gm zc.
       render \<lparr>width = 2, height = 1, data = [10, 20, 30, 255, 10, 20, 30, 255]\<rparr>
         GRADIENT_MAGNITUDE = Inr gm
     \<and> render \<lparr>width = 2, height = 1, data = [10, 20, 30, 255, 10, 20, 30, 255]\<rparr>
         ZERO_CROSSING = Inr zc
     \<and> data gm ! (4 * 1 + 2) = 0 \<and> data zc ! (4 * 1 + 2) = 128)"
proof -
  let ?img = "\<lparr>width = 2, height = 1, data = [10, 20, 30, 255, 10, 20, 30, 255]\<rparr>"
  have "data ?img ! (4 * q) = 10 \<and> data ?img ! (4 * q + 1) = 20 \<and> data ?img ! (4 * q + 2) = 30"
    if "q < width ?img * height ?img" for q
  proof -
    have "q = 0 \<or> q = 1" using that by auto
    then show ?thesis by auto
  qed
  then have u: "\<forall>q < width ?img * height ?img.
             data ?img ! (4 * q) = 10 \<and> data ?img ! (4 * q + 1) = 20 \<and> data ?img ! (4 * q + 2) = 30"
    by blast
  have w: "wellFormed ?img" by (simp add: wellFormed_def bytes_def)
  have p: "1 < width ?img * height ?img" by simp
  have k: "(2::nat) < 3" by simp
  show ?thesis using w flat_field_views[OF w u p k] by simp
qed

text \<open>
  C2 as stated fails for the Zero-Crossing view: on a single black pixel, a uniform
  source, it stores 128 on the three colour channels.
\<close>

theorem zero_crossing_flat_field_is_mid_grey:
  "render \<lparr>width = 1, height = 1, data = [0, 0, 0, 255]\<rparr> ZERO_CROSSING
     = Inr \<lparr>width = 1, height = 1, data = [128, 128, 128, 255]\<rparr>"
  by (rule zeroCrossing_black)

text \<open>
  C3. Every channel value in the buffer a view leaves on the canvas lies in 0..255,
  whatever the transform and the source pixels: the values the filters compute (the
  Eco tint 1.2 * G, the Sobel magnitude) may exceed 255, and the store into the clamped
  byte array narrows them. In the witness the green channel 255 gives 306 before the
  store and 255 after it.
\<close>

theorem channels_in_range:
  assumes "wellFormed img" and "render img t = Inr out"
  shows "\<forall>b \<in> set (data out). b \<le> 255"
proof -
  have b: "bytes (data img)" using assms(1) by (simp add: wellFormed_def)
  have "bytes (data out)"
    using assms(2) b
    by (auto simp: render_def Let_def pointLoop_bytes wavelet_bytes convolve_bytes
        bytes_replicate split: if_splits)
  then show ?thesis by (simp add: bytes_def)
qed

theorem channels_in_range_witness:
  "wellFormed \<lparr>width = 1, height = 1, data = [10, 255, 250, 255]\<rparr>
   \<and> render \<lparr>width = 1, height = 1, data = [10, 255, 250, 255]\<rparr> ECO
        = Inr \<lparr>width = 1, height = 1, data = [8, 255, 200, 255]\<rparr>
   \<and> set (data \<lparr>width = 1, height = 1, data = [8, 255, 200, 255]\<rparr>) \<subseteq> {..255}"
proof -
  have w: "wellFormed \<lparr>width = 1, height = 1, data = [10, 255, 250, 255]\<rparr>"
    by (simp add: wellFormed_def bytes_def)
  show ?thesis
    using w eco_saturates channels_in_range[OF w eco_saturates] by simp
qed

text \<open>
  C4. For the block with luminance corners p1 = 100, p2 = 150, p3 = 50, p4 = 200 the
  Haar formulas give LL = 125, LH = 128, HL = 78 and HH = 153; and the Wavelet view of
  the 2x2 picture of the four grey pixels of these luminances stores these four values,
  one in each quadrant.
\<close>

theorem haar_worked_example:
  "haar 100 150 50 200 = (125, 128, 78, 153)
   \<and> render \<lparr>width = 2, height = 2,
              data = [100, 100, 100, 255, 150, 150, 150, 255,
                      50, 50, 50, 255, 200, 200, 200, 255]\<rparr> WAVELET
       = Inr \<lparr>width = 2, height = 2,
                data = [125, 125, 125, 255, 128, 128, 128, 255,
                        78, 78, 78, 255, 153, 153, 153, 255]\<rparr>"
  using render_wavelet_2x2 by (simp add: haar_def)

text \<open>
  C5. The Original view leaves the picture as drawn: same width, same height, same
  bytes.
\<close>

theorem render_original_identity: "render img ORIGINAL = Inr img"
  by (simp add: render_def)

text \<open>
  C6. \<^verbatim>\<open>getPixelIndex\<close> clamps \<open>x\<close> to 0..width-1 and \<open>y\<close> to 0..height-1, each
  on its own, and returns the byte offset of the pixel at the clamped coordinate; the
  four bytes of that pixel lie inside the buffer. On a 1x1 picture every access is the
  access to the single pixel, and every view returns a picture.
\<close>

theorem getPixelIndex_clamps:
  assumes "0 < w" "0 < h"
  shows "(\<exists>cx cy. int cx = max 0 (min (int w - 1) x) \<and> int cy = max 0 (min (int h - 1) y)
            \<and> cx < w \<and> cy < h
            \<and> getPixelIndex w h x y = (cy * w + cx) * 4
            \<and> getPixelIndex w h x y + 3 < w * h * 4)
         \<and> getPixelIndex 1 1 x y = 0
         \<and> getGray d (getPixelIndex 1 1 x y) = getGray d 0
         \<and> (\<exists>out. render \<lparr>width = 1, height = 1, data = d\<rparr> t = Inr out)"
proof -
  obtain cx cy where c: "int cx = max 0 (min (int w - 1) x)" "int cy = max 0 (min (int h - 1) y)"
    "cx < w" "cy < h" "getPixelIndex w h x y = (cy * w + cx) * 4"
    using getPixelIndex_eq[OF assms] by blast
  have "(cy * w + cx) * 4 + 3 < w * h * 4" using c(3,4) by (intro pixel_in_range) simp_all
  then have "getPixelIndex w h x y + 3 < w * h * 4" using c(5) by simp
  then have 1: "\<exists>cx cy. int cx = max 0 (min (int w - 1) x) \<and> int cy = max 0 (min (int h - 1) y)
            \<and> cx < w \<and> cy < h
            \<and> getPixelIndex w h x y = (cy * w + cx) * 4
            \<and> getPixelIndex w h x y + 3 < w * h * 4"
    using c by blast
  have 2: "\<exists>out. render \<lparr>width = 1, height = 1, data = d\<rparr> t = Inr out"
    by (rule render_total) simp_all
  have 3: "getPixelIndex 1 1 x y = 0" by (rule getPixelIndex_1x1)
  have 4: "getGray d (getPixelIndex 1 1 x y) = getGray d 0" by (simp only: 3)
  show ?thesis using 1 2 3 4 by blast
qed

theorem getPixelIndex_clamps_witness:
  "(0::nat) < 3 \<and> (0::nat) < 2
   \<and> getPixelIndex 3 2 5 (- 1) = 8 \<and> getPixelIndex 3 2 (- 4) 7 = 12
   \<and> getPixelIndex 3 2 5 (- 1) + 3 < 3 * 2 * 4"
proof -
  have a: "(0::nat) < 3" and b: "(0::nat) < 2" by simp_all
  have "getPixelIndex 3 2 5 (- 1) + 3 < 3 * 2 * 4"
    using getPixelIndex_clamps[OF a b, of 5 "- 1" "[]" ORIGINAL] by blast
  then show ?thesis by (simp add: getPixelIndex_def)
qed

text \<open>
  C8. The heat map sends luminance 0 to pure blue and luminance 255 to pure red; at
  luminance 127 and 128 the green channel is strictly above the red and the blue one.
  The second half states the same of the bytes stored for the grey pixels of these
  luminances.
\<close>

theorem heatmap_endpoints_and_middle:
  "heatmapColor 0 = (0, 0, 255) \<and> heatmapColor 255 = (255, 0, 0)
   \<and> heatmapColor 127 = (0, 254, 1) \<and> heatmapColor 128 = (1, 254, 0)
   \<and> pointFilter HEATMAP 0 [0, 0, 0, a] = [0, 0, 255, a]
   \<and> pointFilter HEATMAP 0 [255, 255, 255, a] = [255, 0, 0, a]
   \<and> pointFilter HEATMAP 0 [127, 127, 127, a] = [0, 254, 1, a]
   \<and> pointFilter HEATMAP 0 [128, 128, 128, a] = [1, 254, 0, a]"
  by (simp add: heatmapColor_def pointFilter_def toUint8Clamp_def Let_def)

text \<open>
  C9. For a source as \<^verbatim>\<open>getImageData\<close> returns it, at every pixel and on each of the
  three colour channels: the Gradient Magnitude view stores the Sobel magnitude of the
  pixel, and the Skeleton view stores the same byte where that magnitude exceeds 50 and
  zero where it does not.

  The comparison with 50 is made on the number the code has computed, so the statement
  is about the two views with the arithmetic \<open>A\<close> of the numbers as a parameter: it
  holds for the doubles of a JavaScript engine as for exact reals. The magnitude is
  the one of the specification, and with exact reals the two views are those of
  \<open>render\<close>.
\<close>

theorem skeleton_thresholds_magnitude:
  assumes "wellFormed img" and "x < width img" and "y < height img" and "k < 3"
    and "fStore A (fLit A 0) = 0"
  shows "\<exists>sk gm. renderMagnitudeA A img SKELETON = Inr sk
           \<and> renderMagnitudeA A img GRADIENT_MAGNITUDE = Inr gm
           \<and> data gm ! ((y * width img + x) * 4 + k)
               = fStore A (magnitudeA A (width img) (height img) (data img) (int x) (int y))
           \<and> data sk ! ((y * width img + x) * 4 + k)
               = (if fGt A (magnitudeA A (width img) (height img) (data img) (int x) (int y))
                           (fLit A 50)
                  then data gm ! ((y * width img + x) * 4 + k) else 0)
           \<and> magnitudeA A (width img) (height img) (data img) (int x) (int y)
               = specMagnitude A (\<lambda>dx dy. getGrayA A (data img)
                   (getPixelIndex (width img) (height img) (int x + dx) (int y + dy)))
           \<and> renderMagnitudeA exactReals img SKELETON = render img SKELETON
           \<and> renderMagnitudeA exactReals img GRADIENT_MAGNITUDE = render img GRADIENT_MAGNITUDE"
proof -
  let ?w = "width img" and ?h = "height img" and ?d = "data img"
  let ?m = "magnitudeA A ?w ?h ?d (int x) (int y)"
  let ?i = "(y * ?w + x) * 4 + k"
  obtain gm where gm: "renderMagnitudeA A img GRADIENT_MAGNITUDE = Inr gm"
    "data gm ! ?i = fStore A ?m"
    using renderMagnitudeA_value[OF assms(2,3,4), of A GRADIENT_MAGNITUDE "fStore A ?m"]
      magnitudePixelA_magnitude[OF _ assms(4)] by blast
  obtain sk where sk: "renderMagnitudeA A img SKELETON = Inr sk"
    "data sk ! ?i = fStore A (if fGt A ?m (fLit A 50) then ?m else fLit A 0)"
    using renderMagnitudeA_value[OF assms(2,3,4), of A SKELETON
        "fStore A (if fGt A ?m (fLit A 50) then ?m else fLit A 0)"]
      magnitudePixelA_skeleton[OF _ assms(4)] by blast
  have v: "data sk ! ?i = (if fGt A ?m (fLit A 50) then data gm ! ?i else 0)"
    using sk(2) gm(2) assms(5) by simp
  have e: "renderMagnitudeA exactReals img SKELETON = render img SKELETON"
    "renderMagnitudeA exactReals img GRADIENT_MAGNITUDE = render img GRADIENT_MAGNITUDE"
    by (simp_all add: renderMagnitudeA_exact)
  show ?thesis
    using sk(1) gm v e magnitudeA_spec[of A ?w ?h ?d "int x" "int y"] by blast
qed

theorem skeleton_thresholds_magnitude_witness:
  "wellFormed \<lparr>width = 2, height = 1, data = [10, 10, 10, 255, 20, 20, 20, 255]\<rparr>
   \<and> fStore exactReals (fLit exactReals 0) = 0
   \<and> magnitudeA exactReals 2 1 [10, 10, 10, 255, 20, 20, 20, 255] 0 0 = 40
   \<and> (\<exists>sk gm.
          render \<lparr>width = 2, height = 1, data = [10, 10, 10, 255, 20, 20, 20, 255]\<rparr>
            SKELETON = Inr sk
        \<and> render \<lparr>width = 2, height = 1, data = [10, 10, 10, 255, 20, 20, 20, 255]\<rparr>
            GRADIENT_MAGNITUDE = Inr gm
        \<and> data gm ! 0 = 40 \<and> data sk ! 0 = 0)
   \<and> wellFormed \<lparr>width = 2, height = 1, data = [0, 0, 0, 255, 255, 255, 255, 255]\<rparr>
   \<and> magnitudeA exactReals 2 1 [0, 0, 0, 255, 255, 255, 255, 255] 0 0 = 1020
   \<and> (\<exists>sk gm.
          render \<lparr>width = 2, height = 1, data = [0, 0, 0, 255, 255, 255, 255, 255]\<rparr> SKELETON
            = Inr sk
        \<and> render \<lparr>width = 2, height = 1, data = [0, 0, 0, 255, 255, 255, 255, 255]\<rparr>
            GRADIENT_MAGNITUDE = Inr gm
        \<and> data gm ! 0 = 255 \<and> data sk ! 0 = 255)"
proof -
  define a :: ImageData
    where "a = \<lparr>width = 2, height = 1, data = [10, 10, 10, 255, 20, 20, 20, 255]\<rparr>"
  define b :: ImageData
    where "b = \<lparr>width = 2, height = 1, data = [0, 0, 0, 255, 255, 255, 255, 255]\<rparr>"
  have wa: "wellFormed a" and wb: "wellFormed b"
    by (simp_all add: wellFormed_def bytes_def a_def b_def)
  have xa: "0 < width a" and ya: "0 < height a" and xb: "0 < width b" and yb: "0 < height b"
    by (simp_all add: a_def b_def)
  have k: "(0::nat) < 3" by simp
  have z: "fStore exactReals (fLit exactReals 0) = 0"
    by (simp add: exactReals_def toUint8Clamp_def)
  have ma: "magnitudeA exactReals (width a) (height a) (data a) (int 0) (int 0) = 40"
    using magnitude_soft_edge by (simp add: magnitudeA_exact a_def)
  have mb: "magnitudeA exactReals (width b) (height b) (data b) (int 0) (int 0) = 1020"
    using magnitude_edge by (simp add: magnitudeA_exact b_def)
  have st: "fStore exactReals 40 = 40" "fStore exactReals 1020 = 255"
    "fGt exactReals 40 (fLit exactReals 50) = False"
    "fGt exactReals 1020 (fLit exactReals 50) = True"
    by (simp_all add: exactReals_def toUint8Clamp_def)
  from skeleton_thresholds_magnitude[OF wa xa ya k z]
  obtain ska gma where ra: "renderMagnitudeA exactReals a SKELETON = Inr ska"
    "renderMagnitudeA exactReals a GRADIENT_MAGNITUDE = Inr gma"
    "data gma ! ((0 * width a + 0) * 4 + 0) = fStore exactReals 40"
    "data ska ! ((0 * width a + 0) * 4 + 0)
       = (if fGt exactReals 40 (fLit exactReals 50)
          then data gma ! ((0 * width a + 0) * 4 + 0) else 0)"
    "renderMagnitudeA exactReals a SKELETON = render a SKELETON"
    "renderMagnitudeA exactReals a GRADIENT_MAGNITUDE = render a GRADIENT_MAGNITUDE"
    unfolding ma by blast
  have ea: "\<exists>sk gm. render a SKELETON = Inr sk \<and> render a GRADIENT_MAGNITUDE = Inr gm
              \<and> data gm ! 0 = 40 \<and> data sk ! 0 = 0"
    using ra unfolding st by (intro exI[of _ ska] exI[of _ gma]) simp
  from skeleton_thresholds_magnitude[OF wb xb yb k z]
  obtain skb gmb where rb: "renderMagnitudeA exactReals b SKELETON = Inr skb"
    "renderMagnitudeA exactReals b GRADIENT_MAGNITUDE = Inr gmb"
    "data gmb ! ((0 * width b + 0) * 4 + 0) = fStore exactReals 1020"
    "data skb ! ((0 * width b + 0) * 4 + 0)
       = (if fGt exactReals 1020 (fLit exactReals 50)
          then data gmb ! ((0 * width b + 0) * 4 + 0) else 0)"
    "renderMagnitudeA exactReals b SKELETON = render b SKELETON"
    "renderMagnitudeA exactReals b GRADIENT_MAGNITUDE = render b GRADIENT_MAGNITUDE"
    unfolding mb by blast
  have eb: "\<exists>sk gm. render b SKELETON = Inr sk \<and> render b GRADIENT_MAGNITUDE = Inr gm
              \<and> data gm ! 0 = 255 \<and> data sk ! 0 = 255"
    using rb unfolding st by (intro exI[of _ skb] exI[of _ gmb]) simp
  have ma': "magnitudeA exactReals 2 1 [10, 10, 10, 255, 20, 20, 20, 255] 0 0 = 40"
    using ma by (simp add: a_def)
  have mb': "magnitudeA exactReals 2 1 [0, 0, 0, 255, 255, 255, 255, 255] 0 0 = 1020"
    using mb by (simp add: b_def)
  show ?thesis
    using wa z ma' ea wb mb' eb unfolding a_def b_def by (intro conjI)
qed



end
